theory Spec2Isabelle
  imports Main "HOL-Library.Char_ord" "HOL-Library.List_Lexorder"
begin

section \<open>Strings\<close>

text \<open>
  Python strings are modelled as \<open>string\<close>; the character classes below are those of
  Python's \<open>str\<close> methods and of the \<open>re\<close> module on the ASCII range, which is the
  range the model covers.
\<close>

definition is_space :: "char \<Rightarrow> bool" where
  \<comment> \<open>\<open>str.isspace\<close> and the regex class \<open>\s\<close>\<close>
  "is_space c \<longleftrightarrow> c \<in> set [CHR 0x09, CHR 0x0A, CHR 0x0B, CHR 0x0C, CHR 0x0D,
                          CHR 0x1C, CHR 0x1D, CHR 0x1E, CHR 0x1F, CHR 0x20]"

definition is_digit :: "char \<Rightarrow> bool" where
  \<comment> \<open>\<open>str.isdigit\<close> and the regex class \<open>\d\<close>\<close>
  "is_digit c \<longleftrightarrow> CHR ''0'' \<le> c \<and> c \<le> CHR ''9''"

definition is_upper :: "char \<Rightarrow> bool" where
  "is_upper c \<longleftrightarrow> CHR ''A'' \<le> c \<and> c \<le> CHR ''Z''"

definition is_lower :: "char \<Rightarrow> bool" where
  "is_lower c \<longleftrightarrow> CHR ''a'' \<le> c \<and> c \<le> CHR ''z''"

definition is_alpha :: "char \<Rightarrow> bool" where
  "is_alpha c \<longleftrightarrow> is_upper c \<or> is_lower c"

definition is_word :: "char \<Rightarrow> bool" where
  \<comment> \<open>the regex class \<open>\w\<close>\<close>
  "is_word c \<longleftrightarrow> is_alpha c \<or> is_digit c \<or> c = CHR ''_''"

definition lower_char :: "char \<Rightarrow> char" where
  "lower_char c = (if is_upper c then char_of (of_char c + (32::nat)) else c)"

definition lower :: "string \<Rightarrow> string" where
  \<comment> \<open>\<open>str.lower\<close>\<close>
  "lower s = map lower_char s"

definition lstrip :: "string \<Rightarrow> string" where
  "lstrip s = dropWhile is_space s"

definition rstrip :: "string \<Rightarrow> string" where
  "rstrip s = rev (dropWhile is_space (rev s))"

definition strip :: "string \<Rightarrow> string" where
  \<comment> \<open>\<open>str.strip()\<close>\<close>
  "strip s = rstrip (lstrip s)"

definition endswith :: "string \<Rightarrow> string \<Rightarrow> bool" where
  \<comment> \<open>\<open>s.endswith(suffix)\<close>\<close>
  "endswith s suffix \<longleftrightarrow>
     length suffix \<le> length s \<and> drop (length s - length suffix) s = suffix"

definition digit_val :: "char \<Rightarrow> nat" where
  "digit_val c = of_char c - of_char CHR ''0''"

definition int_of_digits :: "string \<Rightarrow> nat" where
  \<comment> \<open>\<open>int(part)\<close> on a run of decimal digits\<close>
  "int_of_digits s = foldl (\<lambda>n c. 10 * n + digit_val c) 0 s"

definition digit_char :: "nat \<Rightarrow> char" where
  "digit_char d = char_of (of_char CHR ''0'' + d)"

fun str_nat :: "nat \<Rightarrow> string" where
  \<comment> \<open>\<open>str(n)\<close>, the decimal numeral of a counter\<close>
  "str_nat n = (if n < 10 then [digit_char n] else str_nat (n div 10) @ [digit_char (n mod 10)])"

declare str_nat.simps [simp del]

text \<open>
  \<open>re.sub(r'<[^>]+>', '', html)\<close>: scanning from the left, a \<open><\<close> that is followed
  by at least one character other than \<open>>\<close> and then by a \<open>>\<close> is removed together
  with everything up to that \<open>>\<close>; every other character is kept.
\<close>

function strip_tags :: "string \<Rightarrow> string" where
  "strip_tags [] = []"
| "strip_tags (c # cs) =
     (if c = CHR ''<'' \<and> takeWhile (\<lambda>x. x \<noteq> CHR ''>'') cs \<noteq> []
         \<and> dropWhile (\<lambda>x. x \<noteq> CHR ''>'') cs \<noteq> []
      then strip_tags (tl (dropWhile (\<lambda>x. x \<noteq> CHR ''>'') cs))
      else c # strip_tags cs)"
  by pat_completeness auto
termination
proof (relation "measure length")
  show "wf (measure length)" by simp
next
  fix c :: char and cs :: string
  have "length (tl (dropWhile (\<lambda>x. x \<noteq> CHR ''>'') cs)) \<le> length cs"
    using length_dropWhile_le [of "\<lambda>x. x \<noteq> CHR ''>''" cs] by simp
  then show "(tl (dropWhile (\<lambda>x. x \<noteq> CHR ''>'') cs), c # cs) \<in> measure length"
    by simp
next
  fix c :: char and cs :: string
  show "(cs, c # cs) \<in> measure length" by simp
qed

text \<open>
  \<open>re.sub(r'\n{3,}', '\n\n', s)\<close>: every maximal run of three or more newlines is
  replaced by two newlines; shorter runs are kept.
\<close>

function collapse_newlines :: "string \<Rightarrow> string" where
  "collapse_newlines [] = []"
| "collapse_newlines (c # cs) =
     (if c = CHR 0x0A
      then (let run = takeWhile (\<lambda>x. x = CHR 0x0A) cs;
                rest = dropWhile (\<lambda>x. x = CHR 0x0A) cs
            in (if 2 \<le> length run then [CHR 0x0A, CHR 0x0A] else c # run)
               @ collapse_newlines rest)
      else c # collapse_newlines cs)"
  by pat_completeness auto
termination
proof (relation "measure length")
  show "wf (measure length)" by simp
next
  fix c :: char and cs x xa :: string
  assume "xa = dropWhile (\<lambda>x. x = CHR 0x0A) cs"
  then show "(xa, c # cs) \<in> measure length"
    by (simp add: length_dropWhile_le less_Suc_eq_le)
next
  fix c :: char and cs :: string
  show "(cs, c # cs) \<in> measure length" by simp
qed

section \<open>Markup events\<close>

text \<open>
  Both converters subclass Python's \<open>html.parser.HTMLParser\<close>. Its \<open>feed\<close> method
  scans the input and calls \<open>handle_starttag(tag, attrs)\<close>, \<open>handle_endtag(tag)\<close> and
  \<open>handle_data(data)\<close> in document order; the other callbacks are not overridden and
  do nothing. An attribute without a value is delivered with the value \<open>None\<close>.
\<close>

datatype event =
    StartTag string "(string \<times> string option) list"
  | EndTag string
  | Data string

text \<open>
  The scanner is library code, so the conversions take it as a parameter: a tokenizer maps
  the input to \<open>Completed evs\<close> when \<open>feed\<close> makes the calls \<open>evs\<close> and returns, and to
  \<open>Faulted evs\<close> when it raises an exception after the calls \<open>evs\<close>.
\<close>

datatype feed_result = Completed "event list" | Faulted "event list"

type_synonym tokenizer = "string \<Rightarrow> feed_result"

text \<open>
  \<open>scan_plain\<close> follows \<open>HTMLParser.goahead\<close> (one call of \<open>feed\<close>, no \<open>close\<close>) on
  plain markup: character data without \<open>&\<close>, and the tags \<open><name>\<close>, \<open></name>\<close> and
  \<open><name/>\<close>. Text before the next \<open><\<close> is one data event; a \<open><\<close> followed by
  a letter opens a start tag and \<open></\<close> an end tag, both of which stay buffered (no
  event, and the scan stops) while their \<open>>\<close> is missing; a trailing \<open><\<close> stays
  buffered too; any other \<open><\<close> is the data \<open><\<close>. Tag names are lower-cased.
  Attributes, character references, comments, declarations and the content mode of
  \<open>script\<close> and \<open>style\<close> are outside this fragment: the scanner drops attributes and
  treats the rest as text.
\<close>

definition is_name_end :: "char \<Rightarrow> bool" where
  \<comment> \<open>the characters that end a tag name: \<open>[\t\n\r\f />\x00]\<close>\<close>
  "is_name_end c \<longleftrightarrow> c \<in> set [CHR 0x09, CHR 0x0A, CHR 0x0D, CHR 0x0C, CHR '' '',
                             CHR ''/'', CHR ''>'', CHR 0x00]"

definition is_endtag_name :: "string \<Rightarrow> bool" where
  \<comment> \<open>\<open>[a-zA-Z][-.a-zA-Z0-9:_]*\<close>\<close>
  "is_endtag_name s \<longleftrightarrow>
     (case s of [] \<Rightarrow> False
      | c # cs \<Rightarrow> is_alpha c \<and>
          list_all (\<lambda>x. is_alpha x \<or> is_digit x
                         \<or> x \<in> set [CHR ''-'', CHR ''.'', CHR '':'', CHR ''_'']) cs)"

definition tag_events :: "string \<Rightarrow> event list" where
  "tag_events body =
     (case body of
        [] \<Rightarrow> []
      | c # cs \<Rightarrow>
          if c = CHR ''/''
          then (if is_endtag_name (strip cs) then [EndTag (lower (strip cs))] else [])
          else (let name = lower (takeWhile (\<lambda>x. \<not> is_name_end x) body);
                    rest = strip (dropWhile (\<lambda>x. \<not> is_name_end x) body)
                in if rest = ''/'' then [StartTag name [], EndTag name]
                   else [StartTag name []]))"

function scan_plain :: "string \<Rightarrow> event list" where
  "scan_plain [] = []"
| "scan_plain (c # cs) =
     (if c \<noteq> CHR ''<''
      then Data (c # takeWhile (\<lambda>x. x \<noteq> CHR ''<'') cs)
             # scan_plain (dropWhile (\<lambda>x. x \<noteq> CHR ''<'') cs)
      else if cs = [] then []
      else if is_alpha (hd cs) \<or> hd cs = CHR ''/''
      then (if CHR ''>'' \<notin> set cs then []
            else tag_events (takeWhile (\<lambda>x. x \<noteq> CHR ''>'') cs)
                   @ scan_plain (tl (dropWhile (\<lambda>x. x \<noteq> CHR ''>'') cs)))
      else Data ''<'' # scan_plain cs)"
  by pat_completeness auto
termination
proof (relation "measure length")
  show "wf (measure length)" by simp
next
  fix c :: char and cs :: string
  show "(dropWhile (\<lambda>x. x \<noteq> CHR ''<'') cs, c # cs) \<in> measure length"
    using length_dropWhile_le [of "\<lambda>x. x \<noteq> CHR ''<''" cs] by simp
next
  fix c :: char and cs :: string
  show "(tl (dropWhile (\<lambda>x. x \<noteq> CHR ''>'') cs), c # cs) \<in> measure length"
    using length_dropWhile_le [of "\<lambda>x. x \<noteq> CHR ''>''" cs] by simp
next
  fix c :: char and cs :: string
  show "(cs, c # cs) \<in> measure length" by simp
qed

definition plain_feed :: tokenizer where
  "plain_feed html = Completed (scan_plain html)"

section \<open>The structured target: HTML to BlockNote blocks\<close>

text \<open>
  \<open>current_styles\<close> is a dictionary with the keys \<open>bold\<close>, \<open>italic\<close>, \<open>underline\<close>
  (value \<open>True\<close> when present) and \<open>link\<close> (the href, which is \<open>None\<close> for an
  \<open>href\<close> attribute without a value). A key that is absent is \<open>False\<close>, respectively
  \<open>None\<close>, in the record.
\<close>

record style_set =
  bold :: bool
  italic :: bool
  underline :: bool
  link :: "string option option"

definition no_styles :: style_set where
  "no_styles = \<lparr>bold = False, italic = False, underline = False, link = None\<rparr>"

record text_node =
  node_type :: string
  node_text :: string
  styles :: style_set

record block_props =
  textColor :: string
  backgroundColor :: string
  textAlignment :: string
  level :: "nat option"

record block =
  block_id :: string
  block_type :: string
  props :: block_props
  content :: "text_node list"
  children :: "unit list"

text \<open>
  \<open>uuid.uuid4()\<close> is modelled by an identifier supply \<open>ids\<close>: the \<open>k\<close>-th call made by
  the program returns \<open>ids k\<close>. The number of calls made so far is part of the state.
\<close>

type_synonym id_supply = "nat \<Rightarrow> string"

record converter =
  blocks :: "block list"
  current_block :: "block option"
  current_content :: "text_node list"
  current_styles :: style_set
  pending_text :: "string list"
  next_id :: nat

definition init_converter :: "nat \<Rightarrow> converter" where
  "init_converter n = \<lparr>blocks = [], current_block = None, current_content = [],
     current_styles = no_styles, pending_text = [], next_id = n\<rparr>"

definition create_block :: "id_supply \<Rightarrow> nat \<Rightarrow> string \<Rightarrow> block" where
  "create_block ids n block_ty =
     \<lparr>block_id = ids n, block_type = block_ty,
      props = \<lparr>textColor = ''default'', backgroundColor = ''default'',
               textAlignment = ''left'', level = None\<rparr>,
      content = [], children = []\<rparr>"

definition flush_text :: "converter \<Rightarrow> converter" where
  "flush_text s =
     (if pending_text s \<noteq> []
      then (let t = concat (pending_text s);
                s1 = (if t \<noteq> []
                      then s\<lparr>current_content := current_content s @
                              [\<lparr>node_type = ''text'', node_text = t,
                                styles = current_styles s\<rparr>]\<rparr>
                      else s)
            in s1\<lparr>pending_text := []\<rparr>)
      else s)"

definition flush_block :: "id_supply \<Rightarrow> converter \<Rightarrow> converter" where
  "flush_block ids s0 =
     (let s = flush_text s0
      in if current_content s \<noteq> []
         then s\<lparr>blocks := blocks s @
                   [(create_block ids (next_id s) ''paragraph'')\<lparr>content := current_content s\<rparr>],
                 next_id := Suc (next_id s),
                 current_content := []\<rparr>
         else s)"

definition heading_tags :: "string list" where
  "heading_tags = [''h1'', ''h2'', ''h3'', ''h4'', ''h5'', ''h6'']"

definition handle_starttag :: "id_supply \<Rightarrow> string \<Rightarrow> (string \<times> string option) list
    \<Rightarrow> converter \<Rightarrow> converter" where
  "handle_starttag ids tag0 attrs s =
     (let tag = lower tag0
      in if tag = ''p'' then flush_block ids s
         else if tag = ''br'' then flush_block ids s
         else if tag \<in> set [''strong'', ''b'']
           then (let s1 = flush_text s
                 in s1\<lparr>current_styles := (current_styles s1)\<lparr>bold := True\<rparr>\<rparr>)
         else if tag \<in> set [''em'', ''i'']
           then (let s1 = flush_text s
                 in s1\<lparr>current_styles := (current_styles s1)\<lparr>italic := True\<rparr>\<rparr>)
         else if tag = ''u''
           then (let s1 = flush_text s
                 in s1\<lparr>current_styles := (current_styles s1)\<lparr>underline := True\<rparr>\<rparr>)
         else if tag \<in> set heading_tags
           then (let s1 = flush_block ids s;
                     b = create_block ids (next_id s1) ''heading''
                 in s1\<lparr>current_block :=
                          Some (b\<lparr>props := (props b)\<lparr>level := Some (digit_val (tag ! 1))\<rparr>\<rparr>),
                        next_id := Suc (next_id s1)\<rparr>)
         else if tag = ''a''
           then (let s1 = flush_text s;
                     href = (case map_of (rev attrs) ''href'' of
                               None \<Rightarrow> Some [] | Some v \<Rightarrow> v)
                 in s1\<lparr>current_styles := (current_styles s1)\<lparr>link := Some href\<rparr>\<rparr>)
         else s)"

definition handle_endtag :: "id_supply \<Rightarrow> string \<Rightarrow> converter \<Rightarrow> converter" where
  "handle_endtag ids tag0 s =
     (let tag = lower tag0
      in if tag = ''p'' then flush_block ids s
         else if tag \<in> set [''strong'', ''b'']
           then (let s1 = flush_text s
                 in s1\<lparr>current_styles := (current_styles s1)\<lparr>bold := False\<rparr>\<rparr>)
         else if tag \<in> set [''em'', ''i'']
           then (let s1 = flush_text s
                 in s1\<lparr>current_styles := (current_styles s1)\<lparr>italic := False\<rparr>\<rparr>)
         else if tag = ''u''
           then (let s1 = flush_text s
                 in s1\<lparr>current_styles := (current_styles s1)\<lparr>underline := False\<rparr>\<rparr>)
         else if tag \<in> set heading_tags
           then (let s1 = flush_text s
                 in case current_block s1 of
                      Some hb \<Rightarrow>
                        s1\<lparr>blocks := blocks s1 @ [hb\<lparr>content := current_content s1\<rparr>],
                           current_block := None,
                           current_content := []\<rparr>
                    | None \<Rightarrow> s1)
         else if tag = ''a''
           then (let s1 = flush_text s
                 in s1\<lparr>current_styles := (current_styles s1)\<lparr>link := None\<rparr>\<rparr>)
         else s)"

definition handle_data :: "string \<Rightarrow> converter \<Rightarrow> converter" where
  "handle_data d s = s\<lparr>pending_text := pending_text s @ [d]\<rparr>"

fun handle :: "id_supply \<Rightarrow> converter \<Rightarrow> event \<Rightarrow> converter" where
  "handle ids s (StartTag tag attrs) = handle_starttag ids tag attrs s"
| "handle ids s (EndTag tag) = handle_endtag ids tag s"
| "handle ids s (Data d) = handle_data d s"

definition feed :: "id_supply \<Rightarrow> event list \<Rightarrow> converter \<Rightarrow> converter" where
  \<comment> \<open>the handler calls made by \<open>converter.feed(html)\<close>, in order\<close>
  "feed ids evs s = foldl (handle ids) s evs"

definition get_blocknote_json :: "id_supply \<Rightarrow> converter \<Rightarrow> converter" where
  \<comment> \<open>flushes the remaining content; the result is the field \<open>blocks\<close>\<close>
  "get_blocknote_json ids s = flush_block ids s"

definition fallback_block :: "id_supply \<Rightarrow> nat \<Rightarrow> string \<Rightarrow> block" where
  "fallback_block ids n t =
     \<lparr>block_id = ids n, block_type = ''paragraph'',
      props = \<lparr>textColor = ''default'', backgroundColor = ''default'',
               textAlignment = ''left'', level = None\<rparr>,
      content = [\<lparr>node_type = ''text'', node_text = strip t, styles = no_styles\<rparr>],
      children = []\<rparr>"

text \<open>
  \<open>html_to_blocknote\<close> returns the block list and the number of identifiers drawn so far.
  The \<open>except Exception\<close> branch is the case \<open>Faulted\<close>: the converter and its blocks are
  dropped (the identifiers it drew stay drawn) and the input is stripped of its tags.
\<close>

definition html_to_blocknote :: "tokenizer \<Rightarrow> id_supply \<Rightarrow> nat \<Rightarrow> string \<Rightarrow> block list \<times> nat" where
  "html_to_blocknote tk ids n html =
     (if html = [] then ([], n)
      else case tk html of
        Completed evs \<Rightarrow>
          (let s = get_blocknote_json ids (feed ids evs (init_converter n))
           in (filter (\<lambda>b. content b \<noteq> []) (blocks s), next_id s))
      | Faulted evs \<Rightarrow>
          (let m = next_id (feed ids evs (init_converter n));
               t = strip_tags html
           in if strip t \<noteq> [] then ([fallback_block ids m t], Suc m) else ([], m)))"

section \<open>The archive target: HTML to Markdown\<close>

text \<open>
  The state of \<open>HTMLToMarkdownConverter\<close>. \<open>current_text\<close> only ever holds pairs
  \<open>('link', href)\<close>; an href is \<open>None\<close> for an \<open>href\<close> attribute without a value, and
  the format string then prints it as \<open>None\<close>.
\<close>

record md_converter =
  result :: "string list"
  current_text :: "(string \<times> string option) list"
  in_list :: bool
  list_type :: "string option"
  list_item_count :: nat

definition md_init :: md_converter where
  "md_init = \<lparr>result = [], current_text = [], in_list = False, list_type = None,
              list_item_count = 0\<rparr>"

definition emit :: "string \<Rightarrow> md_converter \<Rightarrow> md_converter" where
  \<comment> \<open>\<open>self.result.append(x)\<close>\<close>
  "emit x s = s\<lparr>result := result s @ [x]\<rparr>"

definition format_href :: "string option \<Rightarrow> string" where
  "format_href h = (case h of None \<Rightarrow> ''None'' | Some u \<Rightarrow> u)"

definition md_handle_starttag :: "string \<Rightarrow> (string \<times> string option) list
    \<Rightarrow> md_converter \<Rightarrow> md_converter" where
  "md_handle_starttag tag0 attrs s =
     (let tag = lower tag0
      in if tag = ''p'' then s
         else if tag = ''br'' then emit [CHR 0x0A, CHR 0x0A] s
         else if tag \<in> set [''strong'', ''b''] then emit ''**'' s
         else if tag \<in> set [''em'', ''i''] then emit ''*'' s
         else if tag = ''u'' then s
         else if tag \<in> set heading_tags
           then emit (replicate (digit_val (tag ! 1)) CHR ''#'' @ '' '') s
         else if tag = ''a''
           then (let href = (case map_of (rev attrs) ''href'' of
                               None \<Rightarrow> Some [] | Some v \<Rightarrow> v);
                     s1 = emit ''['' s
                 in s1\<lparr>current_text := current_text s1 @ [(''link'', href)]\<rparr>)
         else if tag = ''ul'' then s\<lparr>in_list := True, list_type := Some ''ul''\<rparr>
         else if tag = ''ol''
           then s\<lparr>in_list := True, list_type := Some ''ol'', list_item_count := 0\<rparr>
         else if tag = ''li''
           then (if list_type s = Some ''ul'' then emit ''- '' s
                 else (let s1 = s\<lparr>list_item_count := list_item_count s + 1\<rparr>
                       in emit (str_nat (list_item_count s1) @ ''. '') s1))
         else if tag = ''blockquote'' then emit ''> '' s
         else if tag = ''code'' then emit ''`'' s
         else if tag = ''pre'' then emit (''```'' @ [CHR 0x0A]) s
         else s)"

definition md_handle_endtag :: "string \<Rightarrow> md_converter \<Rightarrow> md_converter" where
  "md_handle_endtag tag0 s =
     (let tag = lower tag0
      in if tag = ''p'' then emit [CHR 0x0A, CHR 0x0A] s
         else if tag \<in> set [''strong'', ''b''] then emit ''**'' s
         else if tag \<in> set [''em'', ''i''] then emit ''*'' s
         else if tag \<in> set heading_tags then emit [CHR 0x0A, CHR 0x0A] s
         else if tag = ''a''
           then (if current_text s \<noteq> [] \<and> fst (last (current_text s)) = ''link''
                 then (let href = snd (last (current_text s));
                           s1 = s\<lparr>current_text := butlast (current_text s)\<rparr>
                       in emit ('']('' @ format_href href @ '')'') s1)
                 else s)
         else if tag \<in> set [''ul'', ''ol'']
           then emit [CHR 0x0A] (s\<lparr>in_list := False, list_type := None\<rparr>)
         else if tag = ''li'' then emit [CHR 0x0A] s
         else if tag = ''blockquote'' then emit [CHR 0x0A] s
         else if tag = ''code'' then emit ''`'' s
         else if tag = ''pre'' then emit ([CHR 0x0A] @ ''```'' @ [CHR 0x0A]) s
         else s)"

definition md_handle_data :: "string \<Rightarrow> md_converter \<Rightarrow> md_converter" where
  "md_handle_data d s = emit d s"

fun md_handle :: "md_converter \<Rightarrow> event \<Rightarrow> md_converter" where
  "md_handle s (StartTag tag attrs) = md_handle_starttag tag attrs s"
| "md_handle s (EndTag tag) = md_handle_endtag tag s"
| "md_handle s (Data d) = md_handle_data d s"

definition md_feed :: "event list \<Rightarrow> md_converter \<Rightarrow> md_converter" where
  "md_feed evs s = foldl md_handle s evs"

definition get_markdown :: "md_converter \<Rightarrow> string" where
  "get_markdown s = strip (concat (result s))"

definition html_to_markdown :: "tokenizer \<Rightarrow> string \<Rightarrow> string" where
  "html_to_markdown tk html =
     (if html = [] then []
      else case tk html of
        Completed evs \<Rightarrow> collapse_newlines (get_markdown (md_feed evs md_init))
      | Faulted evs \<Rightarrow> strip_tags html)"

section \<open>Naming utilities, word count and the natural sort key\<close>

function replace_runs :: "(char \<Rightarrow> bool) \<Rightarrow> string \<Rightarrow> string \<Rightarrow> string" where
  \<comment> \<open>\<open>re.sub(r'C+', r, s)\<close> for a character class \<open>C\<close>\<close>
  "replace_runs P r [] = []"
| "replace_runs P r (c # cs) =
     (if P c then r @ replace_runs P r (dropWhile P cs) else c # replace_runs P r cs)"
  by pat_completeness auto
termination
proof (relation "measure (\<lambda>(P, r, s). length s)")
  show "wf (measure (\<lambda>(P, r, s). length s))" by simp
next
  fix P :: "char \<Rightarrow> bool" and r :: string and c :: char and cs :: string
  show "((P, r, dropWhile P cs), (P, r, c # cs)) \<in> measure (\<lambda>(P, r, s). length s)"
    using length_dropWhile_le [of P cs] by simp
next
  fix P :: "char \<Rightarrow> bool" and r :: string and c :: char and cs :: string
  show "((P, r, cs), (P, r, c # cs)) \<in> measure (\<lambda>(P, r, s). length s)" by simp
qed

definition strip_hyphens :: "string \<Rightarrow> string" where
  \<comment> \<open>\<open>s.strip('-')\<close>\<close>
  "strip_hyphens s =
     rev (dropWhile (\<lambda>c. c = CHR ''-'') (rev (dropWhile (\<lambda>c. c = CHR ''-'') s)))"

definition slugify_folder_name :: "string \<Rightarrow> string" where
  "slugify_folder_name title =
     (let slug = lower (strip title);
          slug = filter (\<lambda>c. is_word c \<or> is_space c \<or> c = CHR ''-'') slug;
          slug = replace_runs is_space ''-'' slug;
          slug = replace_runs (\<lambda>c. c = CHR ''-'') ''-'' slug
      in strip_hyphens slug)"

definition slugify_folder :: "string \<Rightarrow> string" where
  \<comment> \<open>the archive script's copy of the same transform\<close>
  "slugify_folder title =
     (let slug = lower (strip title);
          slug = filter (\<lambda>c. is_word c \<or> is_space c \<or> c = CHR ''-'') slug;
          slug = replace_runs is_space ''-'' slug;
          slug = replace_runs (\<lambda>c. c = CHR ''-'') ''-'' slug
      in strip_hyphens slug)"

definition slugify_filename :: "string \<Rightarrow> string" where
  "slugify_filename title =
     (let filename = strip title;
          filename = (if endswith (lower filename) ''.md''
                      then take (length filename - 3) filename else filename);
          filename = filter (\<lambda>c. is_word c \<or> is_space c \<or> c = CHR ''-'') filename;
          filename = replace_runs is_space ''_'' filename
      in filename @ ''.md'')"

function str_split :: "string \<Rightarrow> string list" where
  \<comment> \<open>\<open>s.split()\<close>: the maximal runs of non-whitespace characters\<close>
  "str_split [] = []"
| "str_split (c # cs) =
     (if is_space c then str_split cs
      else (c # takeWhile (\<lambda>x. \<not> is_space x) cs)
             # str_split (dropWhile (\<lambda>x. \<not> is_space x) cs))"
  by pat_completeness auto
termination
proof (relation "measure length")
  show "wf (measure length)" by simp
next
  fix c :: char and cs :: string
  show "(cs, c # cs) \<in> measure length" by simp
next
  fix c :: char and cs :: string
  show "(dropWhile (\<lambda>x. \<not> is_space x) cs, c # cs) \<in> measure length"
    using length_dropWhile_le [of "\<lambda>x. \<not> is_space x" cs] by simp
qed

fun join :: "string \<Rightarrow> string list \<Rightarrow> string" where
  \<comment> \<open>\<open>sep.join(parts)\<close>\<close>
  "join sep [] = []"
| "join sep [x] = x"
| "join sep (x # y # ys) = x @ sep @ join sep (y # ys)"

definition count_words :: "block list \<Rightarrow> nat" where
  "count_words blocknote_content =
     (let text_parts = concat (map (\<lambda>b. map node_text
                          (filter (\<lambda>item. node_type item = ''text'') (content b)))
                        blocknote_content)
      in length (str_split (join '' '' text_parts)))"

text \<open>
  The elements of a natural sort key are the tuples \<open>(0, part.lower())\<close> and
  \<open>(1, int(part))\<close>. Python compares tuples by their first component and then by the
  second, strings by code point, and lists lexicographically.
\<close>

datatype seg = Txt string | Num nat

instantiation seg :: linorder
begin

definition less_eq_seg :: "seg \<Rightarrow> seg \<Rightarrow> bool" where
  "less_eq_seg a b =
     (case a of
        Txt x \<Rightarrow> (case b of Txt y \<Rightarrow> x \<le> y | Num n \<Rightarrow> True)
      | Num m \<Rightarrow> (case b of Txt y \<Rightarrow> False | Num n \<Rightarrow> m \<le> n))"

definition less_seg :: "seg \<Rightarrow> seg \<Rightarrow> bool" where
  "less_seg a b = (a \<le> b \<and> \<not> b \<le> a)"

instance
  by standard (auto simp add: less_eq_seg_def less_seg_def split: seg.splits)

end

function split_digits :: "string \<Rightarrow> string list" where
  \<comment> \<open>the non-empty parts of \<open>re.split(r'(\d+)', text)\<close>\<close>
  "split_digits [] = []"
| "split_digits (c # cs) =
     (if is_digit c
      then (c # takeWhile is_digit cs) # split_digits (dropWhile is_digit cs)
      else (c # takeWhile (\<lambda>x. \<not> is_digit x) cs)
             # split_digits (dropWhile (\<lambda>x. \<not> is_digit x) cs))"
  by pat_completeness auto
termination
proof (relation "measure length")
  show "wf (measure length)" by simp
next
  fix c :: char and cs :: string
  show "(dropWhile is_digit cs, c # cs) \<in> measure length"
    using length_dropWhile_le [of is_digit cs] by simp
next
  fix c :: char and cs :: string
  show "(dropWhile (\<lambda>x. \<not> is_digit x) cs, c # cs) \<in> measure length"
    using length_dropWhile_le [of "\<lambda>x. \<not> is_digit x" cs] by simp
qed

definition convert :: "string \<Rightarrow> seg" where
  "convert part = (if part \<noteq> [] \<and> list_all is_digit part
                   then Num (int_of_digits part) else Txt (lower part))"

definition natural_sort_key :: "string \<Rightarrow> seg list" where
  "natural_sort_key t = map convert (split_digits t)"

section \<open>The Schema 1 tree\<close>

text \<open>
  The input dictionaries, with the keys the scripts read. A field is \<open>None\<close> when the key
  is missing. A document with no key at all is the empty dictionary, which Python treats
  as false.
\<close>

record document =
  doc_id :: "string option"
  doc_title :: "string option"
  doc_content :: "string option"
  doc_status :: "string option"
  doc_summary :: "string option"

record folder =
  folder_id :: "string option"
  folder_title :: "string option"
  folder_sort :: "int option"
  folder_status :: "string option"
  documentIds :: "string list"

record schema1 =
  documentsById :: "string \<rightharpoonup> document"
  folders :: "folder list"
  trash_documentIds :: "string list"
  trash_folderIds :: "string list"
  project_title :: "string option"

definition get_or :: "'a option \<Rightarrow> 'a \<Rightarrow> 'a" where
  \<comment> \<open>\<open>d.get(key, default)\<close>\<close>
  "get_or v d = (case v of None \<Rightarrow> d | Some x \<Rightarrow> x)"

definition doc_is_empty :: "document \<Rightarrow> bool" where
  "doc_is_empty d \<longleftrightarrow> doc_id d = None \<and> doc_title d = None \<and> doc_content d = None
                       \<and> doc_status d = None \<and> doc_summary d = None"

definition status_ok :: "string option \<Rightarrow> bool" where
  \<comment> \<open>the negation of \<open>x.get('status') not in (None, 'active')\<close>\<close>
  "status_ok st \<longleftrightarrow> st = None \<or> st = Some ''active''"

definition sort_of :: "folder \<Rightarrow> int" where
  "sort_of f = get_or (folder_sort f) 0"

section \<open>The structured output\<close>

text \<open>
  The output records of the structured target. The field \<open>out_content\<close> is the block
  list that the script stores as its JSON text (\<open>json.dumps\<close>); fields that the script
  always sets to \<open>None\<close> have the type \<open>unit option\<close>.
\<close>

record out_document =
  out_type :: string
  out_title :: string
  out_label_color :: "unit option"
  out_card_color :: "unit option"
  out_icon :: "unit option"
  out_content :: "block list"
  out_synopsis :: "string option"
  out_notes :: "unit option"
  out_label :: "unit option"
  out_status :: string
  out_order :: nat
  out_word_count :: nat
  out_target_word_count :: "unit option"
  out_keywords :: "unit option"

record out_folder =
  fo_name :: string
  fo_type :: string
  fo_description :: "unit option"
  fo_parent_id :: "unit option"
  fo_label_color :: "unit option"
  fo_icon :: "unit option"
  fo_order :: nat
  fo_is_default :: bool
  fo_documents :: "out_document list"

record schema2 =
  s2_title :: string
  s2_author :: "unit option"
  s2_author_pen_name :: "unit option"
  s2_description :: "unit option"
  s2_genre :: "unit option"
  number_of_chapters :: "nat option"
  s2_story_hook :: "unit option"
  s2_story_pitch :: "unit option"
  s2_status :: string
  s2_folders :: "out_folder list"

definition convert_document :: "tokenizer \<Rightarrow> id_supply \<Rightarrow> nat \<Rightarrow> document \<Rightarrow> nat
    \<Rightarrow> out_document \<times> nat" where
  "convert_document tk ids n doc ord =
     (let html_content = get_or (doc_content doc) [];
          (blocknote_content, n') = html_to_blocknote tk ids n html_content;
          word_count = count_words blocknote_content;
          status = get_or (doc_status doc) ''active'';
          status = (if status = ''active'' then ''draft'' else status);
          title = get_or (doc_title doc) ''Untitled'';
          title = (if endswith (lower title) ''.md''
                   then take (length title - 3) title else title)
      in (\<lparr>out_type = ''manuscript'', out_title = title, out_label_color = None,
           out_card_color = None, out_icon = None, out_content = blocknote_content,
           out_synopsis = (case doc_summary doc of
                             None \<Rightarrow> None
                           | Some sm \<Rightarrow> if sm \<noteq> [] then Some sm else None),
           out_notes = None, out_label = None, out_status = status, out_order = ord,
           out_word_count = word_count, out_target_word_count = None,
           out_keywords = None\<rparr>, n'))"

text \<open>The first loop of \<open>convert_folder\<close>: the surviving documents, each converted.\<close>

fun collect_documents :: "tokenizer \<Rightarrow> id_supply \<Rightarrow> (string \<rightharpoonup> document) \<Rightarrow> string list
    \<Rightarrow> string list \<Rightarrow> nat \<Rightarrow> out_document list \<times> nat" where
  "collect_documents tk ids docs_by_id trash_doc_ids [] n = ([], n)"
| "collect_documents tk ids docs_by_id trash_doc_ids (i # rest) n =
     (if i \<in> set trash_doc_ids then collect_documents tk ids docs_by_id trash_doc_ids rest n
      else case docs_by_id i of
        None \<Rightarrow> collect_documents tk ids docs_by_id trash_doc_ids rest n
      | Some doc \<Rightarrow>
          if doc_is_empty doc then collect_documents tk ids docs_by_id trash_doc_ids rest n
          else if \<not> status_ok (doc_status doc)
          then collect_documents tk ids docs_by_id trash_doc_ids rest n
          else (let (converted_doc, n1) = convert_document tk ids n doc 0;
                    (others, n2) = collect_documents tk ids docs_by_id trash_doc_ids rest n1
                in (converted_doc # others, n2)))"

definition assign_order :: "out_document list \<Rightarrow> out_document list" where
  \<comment> \<open>\<open>for idx, doc in enumerate(documents): doc['order'] = idx\<close>\<close>
  "assign_order documents = map (\<lambda>(idx, doc). doc\<lparr>out_order := idx\<rparr>) (enumerate 0 documents)"

definition convert_folder :: "tokenizer \<Rightarrow> id_supply \<Rightarrow> nat \<Rightarrow> folder
    \<Rightarrow> (string \<rightharpoonup> document) \<Rightarrow> string list \<Rightarrow> nat \<Rightarrow> out_folder option \<times> nat" where
  "convert_folder tk ids n fld docs_by_id trash_doc_ids ord =
     (let (documents, n') = collect_documents tk ids docs_by_id trash_doc_ids (documentIds fld) n
      in if documents = [] then (None, n')
         else (Some \<lparr>fo_name = slugify_folder_name (get_or (folder_title fld) ''untitled''),
                      fo_type = ''manuscript'', fo_description = None, fo_parent_id = None,
                      fo_label_color = None, fo_icon = None, fo_order = ord,
                      fo_is_default = False,
                      fo_documents = assign_order
                        (sort_key (\<lambda>d. natural_sort_key (out_title d)) documents)\<rparr>, n'))"

text \<open>The loop over the sorted folders, with its running \<open>folder_order\<close>.\<close>

fun convert_folders :: "tokenizer \<Rightarrow> id_supply \<Rightarrow> (string \<rightharpoonup> document) \<Rightarrow> string list
    \<Rightarrow> string list \<Rightarrow> folder list \<Rightarrow> nat \<Rightarrow> nat \<Rightarrow> out_folder list \<times> nat" where
  "convert_folders tk ids docs_by_id trash_doc_ids trash_folder_ids [] folder_order n = ([], n)"
| "convert_folders tk ids docs_by_id trash_doc_ids trash_folder_ids (fld # rest) folder_order n =
     (if get_or (folder_id fld) [] \<in> set trash_folder_ids
      then convert_folders tk ids docs_by_id trash_doc_ids trash_folder_ids rest folder_order n
      else if \<not> status_ok (folder_status fld)
      then convert_folders tk ids docs_by_id trash_doc_ids trash_folder_ids rest folder_order n
      else case convert_folder tk ids n fld docs_by_id trash_doc_ids folder_order of
        (None, n1) \<Rightarrow>
          convert_folders tk ids docs_by_id trash_doc_ids trash_folder_ids rest folder_order n1
      | (Some converted_folder, n1) \<Rightarrow>
          (let (others, n2) = convert_folders tk ids docs_by_id trash_doc_ids trash_folder_ids
                                rest (folder_order + 1) n1
           in (converted_folder # others, n2)))"

definition convert_schema1_to_schema2 :: "tokenizer \<Rightarrow> id_supply \<Rightarrow> nat \<Rightarrow> schema1
    \<Rightarrow> schema2 \<times> nat" where
  "convert_schema1_to_schema2 tk ids n schema1_data =
     (let sorted_folders = sort_key sort_of (folders schema1_data);
          (converted_folders, n') =
             convert_folders tk ids (documentsById schema1_data)
               (trash_documentIds schema1_data) (trash_folderIds schema1_data)
               sorted_folders 0 n;
          title = get_or (project_title schema1_data) ''Untitled'';
          title = map (\<lambda>c. if c = CHR '' '' then CHR ''_'' else c) title;
          total_docs = sum_list (map (\<lambda>f. length (fo_documents f)) converted_folders)
      in (\<lparr>s2_title = title, s2_author = None, s2_author_pen_name = None,
           s2_description = None, s2_genre = None,
           number_of_chapters = (if total_docs > 0 then Some total_docs else None),
           s2_story_hook = None, s2_story_pitch = None, s2_status = ''draft'',
           s2_folders = converted_folders\<rparr>, n'))"

section \<open>The archive output\<close>

text \<open>
  \<open>convert_schema1_to_zip\<close> reads the tree from a JSON file and writes a ZIP archive.
  The model starts from the loaded tree and returns the entries in the order of the
  \<open>writestr\<close> calls, each a path and its content, together with the counters.
\<close>

record zip_stats =
  folders_processed :: nat
  documents_processed :: nat
  documents_skipped_trash :: nat
  documents_skipped_missing :: nat

type_synonym zip_entry = "string \<times> string"

fun collect_folder_docs :: "(string \<rightharpoonup> document) \<Rightarrow> string list \<Rightarrow> string list
    \<Rightarrow> zip_stats \<Rightarrow> document list \<times> zip_stats" where
  "collect_folder_docs docs_by_id trash_doc_ids [] st = ([], st)"
| "collect_folder_docs docs_by_id trash_doc_ids (i # rest) st =
     (if i \<in> set trash_doc_ids
      then collect_folder_docs docs_by_id trash_doc_ids rest
             (st\<lparr>documents_skipped_trash := documents_skipped_trash st + 1\<rparr>)
      else case docs_by_id i of
        None \<Rightarrow> collect_folder_docs docs_by_id trash_doc_ids rest
                  (st\<lparr>documents_skipped_missing := documents_skipped_missing st + 1\<rparr>)
      | Some doc \<Rightarrow>
          if doc_is_empty doc
          then collect_folder_docs docs_by_id trash_doc_ids rest
                 (st\<lparr>documents_skipped_missing := documents_skipped_missing st + 1\<rparr>)
          else if \<not> status_ok (doc_status doc)
          then collect_folder_docs docs_by_id trash_doc_ids rest st
          else (let (others, st1) = collect_folder_docs docs_by_id trash_doc_ids rest st
                in (doc # others, st1)))"

definition doc_entry :: "tokenizer \<Rightarrow> string \<Rightarrow> document \<Rightarrow> zip_entry" where
  "doc_entry tk folder_slug doc =
     (let filename = slugify_filename (get_or (doc_title doc) ''untitled'');
          markdown_content = html_to_markdown tk (get_or (doc_content doc) [])
      in (folder_slug @ ''/'' @ filename, markdown_content))"

fun zip_folders :: "tokenizer \<Rightarrow> (string \<rightharpoonup> document) \<Rightarrow> string list \<Rightarrow> string list
    \<Rightarrow> folder list \<Rightarrow> zip_stats \<Rightarrow> zip_entry list \<times> zip_stats" where
  "zip_folders tk docs_by_id trash_doc_ids trash_folder_ids [] st = ([], st)"
| "zip_folders tk docs_by_id trash_doc_ids trash_folder_ids (fld # rest) st =
     (if get_or (folder_id fld) [] \<in> set trash_folder_ids
      then zip_folders tk docs_by_id trash_doc_ids trash_folder_ids rest st
      else if \<not> status_ok (folder_status fld)
      then zip_folders tk docs_by_id trash_doc_ids trash_folder_ids rest st
      else (let folder_slug = slugify_folder (get_or (folder_title fld) ''untitled'');
                (folder_docs, st1) =
                   collect_folder_docs docs_by_id trash_doc_ids (documentIds fld) st
            in if folder_docs = []
               then zip_folders tk docs_by_id trash_doc_ids trash_folder_ids rest st1
               else (let st2 = st1\<lparr>folders_processed := folders_processed st1 + 1,
                                    documents_processed :=
                                      documents_processed st1 + length folder_docs\<rparr>;
                         (others, st3) =
                            zip_folders tk docs_by_id trash_doc_ids trash_folder_ids rest st2
                     in ((folder_slug @ ''/'', []) # map (doc_entry tk folder_slug) folder_docs
                           @ others, st3))))"

definition convert_schema1_to_zip :: "tokenizer \<Rightarrow> schema1 \<Rightarrow> zip_entry list \<times> zip_stats" where
  "convert_schema1_to_zip tk data =
     zip_folders tk (documentsById data) (trash_documentIds data) (trash_folderIds data)
       (sort_key sort_of (folders data))
       \<lparr>folders_processed = 0, documents_processed = 0, documents_skipped_trash = 0,
        documents_skipped_missing = 0\<rparr>"

section \<open>Vocabulary of the properties\<close>



text \<open>
  The text runs the block assembler has created so far, in document order; the run that
  flushing the pending text would create now; the events that switch bold on; and the
  texts of the runs of a block list.
\<close>

definition emitted :: "converter \<Rightarrow> text_node list" where
  "emitted s = concat (map content (blocks s)) @ current_content s"


definition pending_run :: "converter \<Rightarrow> text_node list" where
  "pending_run s = (if concat (pending_text s) \<noteq> []
     then [\<lparr>node_type = ''text'', node_text = concat (pending_text s), styles = current_styles s\<rparr>]
     else [])"


text \<open>
  The tree converter in the words of the specification. A document reference survives
  when its id is not in the trash set, the lookup table has a non-empty document for it,
  and the status of that document is absent or \<open>active\<close>; a folder survives when its id
  is not in the trash set, its status is absent or \<open>active\<close>, and one of its references
  survives. \<open>prune\<close> removes every folder and every reference that does not survive.
  \<open>expected_folder\<close> is the name and the natural-sorted title list of an output folder,
  \<open>folder_entries\<close> the directory entry and the file entries of a folder in the archive.
\<close>

definition survives :: "(string \<rightharpoonup> document) \<Rightarrow> string list \<Rightarrow> string \<Rightarrow> bool" where
  "survives docs_by_id trash_doc_ids i \<longleftrightarrow>
     i \<notin> set trash_doc_ids
     \<and> (case docs_by_id i of
          None \<Rightarrow> False
        | Some doc \<Rightarrow> \<not> doc_is_empty doc \<and> status_ok (doc_status doc))"

definition surviving_docs :: "(string \<rightharpoonup> document) \<Rightarrow> string list \<Rightarrow> string list
    \<Rightarrow> document list" where
  "surviving_docs docs_by_id trash_doc_ids doc_ids =
     List.map_filter (\<lambda>i. if survives docs_by_id trash_doc_ids i then docs_by_id i else None)
       doc_ids"

definition folder_survives :: "(string \<rightharpoonup> document) \<Rightarrow> string list \<Rightarrow> string list
    \<Rightarrow> folder \<Rightarrow> bool" where
  "folder_survives docs_by_id trash_doc_ids trash_folder_ids fld \<longleftrightarrow>
     get_or (folder_id fld) [] \<notin> set trash_folder_ids
     \<and> status_ok (folder_status fld)
     \<and> (\<exists>i\<in>set (documentIds fld). survives docs_by_id trash_doc_ids i)"

definition clean_title :: "document \<Rightarrow> string" where
  "clean_title doc =
     (let title = get_or (doc_title doc) ''Untitled''
      in if endswith (lower title) ''.md'' then take (length title - 3) title else title)"

definition folder_entries :: "tokenizer \<Rightarrow> (string \<rightharpoonup> document) \<Rightarrow> string list \<Rightarrow> folder
    \<Rightarrow> zip_entry list" where
  "folder_entries tk docs_by_id trash_doc_ids fld =
     (let folder_slug = slugify_folder (get_or (folder_title fld) ''untitled'')
      in (folder_slug @ ''/'', [])
           # map (doc_entry tk folder_slug)
               (surviving_docs docs_by_id trash_doc_ids (documentIds fld)))"

definition expected_folder :: "(string \<rightharpoonup> document) \<Rightarrow> string list \<Rightarrow> folder
    \<Rightarrow> string \<times> string list" where
  "expected_folder docs_by_id trash_doc_ids fld =
     (slugify_folder_name (get_or (folder_title fld) ''untitled''),
      sort_key natural_sort_key
        (map clean_title (surviving_docs docs_by_id trash_doc_ids (documentIds fld))))"

definition folder_summary :: "out_folder \<Rightarrow> string \<times> string list" where
  "folder_summary f = (fo_name f, map out_title (fo_documents f))"

definition prune :: "schema1 \<Rightarrow> schema1" where
  "prune data =
     data\<lparr>folders :=
       map (\<lambda>fld. fld\<lparr>documentIds :=
              filter (survives (documentsById data) (trash_documentIds data)) (documentIds fld)\<rparr>)
         (filter (folder_survives (documentsById data) (trash_documentIds data)
                    (trash_folderIds data))
            (folders data))\<rparr>"

text \<open>
  A small tree: one folder with five references (one document is in the trash, one has
  the status \<open>archived\<close>, one id is unknown), one folder that is in the trash although
  its status is \<open>active\<close>, and one folder whose only document is in the trash.
\<close>

definition example_docs :: "string \<rightharpoonup> document" where
  "example_docs = map_of
     [(''d1'', \<lparr>doc_id = Some ''d1'', doc_title = Some ''Chapter 10'',
               doc_content = Some ''<p>ten</p>'', doc_status = None, doc_summary = None\<rparr>),
      (''d2'', \<lparr>doc_id = Some ''d2'', doc_title = Some ''Chapter 2.md'',
               doc_content = Some ''<h1>two</h1>'', doc_status = Some ''active'',
               doc_summary = None\<rparr>),
      (''d3'', \<lparr>doc_id = Some ''d3'', doc_title = Some ''Chapter 1'',
               doc_content = Some ''one'', doc_status = Some ''active'', doc_summary = None\<rparr>),
      (''d4'', \<lparr>doc_id = Some ''d4'', doc_title = Some ''Gone'',
               doc_content = Some ''<p>gone</p>'', doc_status = Some ''active'',
               doc_summary = None\<rparr>),
      (''d5'', \<lparr>doc_id = Some ''d5'', doc_title = Some ''Old'',
               doc_content = Some ''<p>old</p>'', doc_status = Some ''archived'',
               doc_summary = None\<rparr>)]"

definition example_folder :: folder where
  "example_folder = \<lparr>folder_id = Some ''f1'', folder_title = Some ''Part One'',
     folder_sort = Some 2, folder_status = None,
     documentIds = [''d1'', ''d2'', ''d3'', ''d4'', ''d5'', ''d9'']\<rparr>"

definition trashed_folder :: folder where
  "trashed_folder = \<lparr>folder_id = Some ''f2'', folder_title = Some ''Trashed'',
     folder_sort = Some 1, folder_status = Some ''active'', documentIds = [''d1'']\<rparr>"

definition emptied_folder :: folder where
  "emptied_folder = \<lparr>folder_id = Some ''f3'', folder_title = Some ''Only Trash'',
     folder_sort = Some 0, folder_status = Some ''active'', documentIds = [''d4'']\<rparr>"

definition example_tree :: schema1 where
  "example_tree = \<lparr>documentsById = example_docs,
     folders = [example_folder, trashed_folder, emptied_folder],
     trash_documentIds = [''d4''], trash_folderIds = [''f2''],
     project_title = Some ''My Book''\<rparr>"


text \<open>
  Outputs with the block identifiers blanked, and the relation between two converter
  states that differ at most in block identifiers and in the number of identifiers drawn.
\<close>

definition erase_block :: "block \<Rightarrow> block" where
  "erase_block b = b\<lparr>block_id := []\<rparr>"

definition erase_document :: "out_document \<Rightarrow> out_document" where
  "erase_document d = d\<lparr>out_content := map erase_block (out_content d)\<rparr>"

definition erase_folder :: "out_folder \<Rightarrow> out_folder" where
  "erase_folder f = f\<lparr>fo_documents := map erase_document (fo_documents f)\<rparr>"

definition erase_project :: "schema2 \<Rightarrow> schema2" where
  "erase_project p = p\<lparr>s2_folders := map erase_folder (s2_folders p)\<rparr>"

definition same_shape :: "converter \<Rightarrow> converter \<Rightarrow> bool" where
  "same_shape s s' \<longleftrightarrow>
     map erase_block (blocks s) = map erase_block (blocks s')
     \<and> map_option erase_block (current_block s) = map_option erase_block (current_block s')
     \<and> current_content s = current_content s'
     \<and> current_styles s = current_styles s'
     \<and> pending_text s = pending_text s'"

section \<open>Properties of the Markdown emitter\<close>







lemma md_feed_append: "md_feed (xs @ ys) s = md_feed ys (md_feed xs s)"
  by (simp add: md_feed_def)




text \<open>
  C3. \<open>html_to_markdown\<close> applied to \<open><h2>Title</h2><p>A <strong>bold</strong> word.</p>\<close>
  returns \<open>## Title\<close>, two newlines, \<open>A **bold** word.\<close>: the emitter appends the
  heading marker, the bold markers and the paragraph separators, the result is trimmed,
  and a run of three or more newlines collapses to two (a run of four does, a run of two
  stays).
\<close>

theorem markdown_round_trip_shape:
  "html_to_markdown plain_feed ''<h2>Title</h2><p>A <strong>bold</strong> word.</p>''
     = ''## Title'' @ [CHR 0x0A, CHR 0x0A] @ ''A **bold** word.''
   \<and> result (md_feed (scan_plain ''<h2>Title</h2><p>A <strong>bold</strong> word.</p>'')
               md_init)
       = [''## '', ''Title'', [CHR 0x0A, CHR 0x0A], ''A '', ''**'', ''bold'', ''**'',
          '' word.'', [CHR 0x0A, CHR 0x0A]]
   \<and> collapse_newlines (''a'' @ [CHR 0x0A, CHR 0x0A, CHR 0x0A, CHR 0x0A] @ ''b''
                            @ [CHR 0x0A, CHR 0x0A] @ ''c'')
       = ''a'' @ [CHR 0x0A, CHR 0x0A] @ ''b'' @ [CHR 0x0A, CHR 0x0A] @ ''c''"
  by code_simp




section \<open>Properties of the block assembler\<close>

lemma flush_text_fields [simp]:
  "blocks (flush_text s) = blocks s"
  "current_block (flush_text s) = current_block s"
  "current_styles (flush_text s) = current_styles s"
  "next_id (flush_text s) = next_id s"
  "pending_text (flush_text s) = []"
  "current_content (flush_text s) = current_content s @ pending_run s"
  by (auto simp add: flush_text_def pending_run_def Let_def)


lemma pending_run_flush_text [simp]: "pending_run (flush_text s) = []"
  by (simp add: pending_run_def)

lemma flush_block_fields [simp]:
  "current_block (flush_block ids s) = current_block s"
  "current_styles (flush_block ids s) = current_styles s"
  "pending_text (flush_block ids s) = []"
  "current_content (flush_block ids s) = []"
  by (auto simp add: flush_block_def Let_def)


lemma pending_run_flush_block [simp]: "pending_run (flush_block ids s) = []"
  by (simp add: pending_run_def)

lemma emitted_update [simp]:
  "emitted (s\<lparr>current_block := cb\<rparr>) = emitted s"
  "emitted (s\<lparr>next_id := k\<rparr>) = emitted s"
  "emitted (s\<lparr>current_styles := st\<rparr>) = emitted s"
  "emitted (s\<lparr>pending_text := pt\<rparr>) = emitted s"
  by (simp_all add: emitted_def)





















lemma handle_endtag_heading:
  assumes "lower tag \<in> set heading_tags" and "current_block s = Some hb"
  shows "blocks (handle_endtag ids tag s)
           = blocks s @ [hb\<lparr>content := current_content s @ pending_run s\<rparr>]"
  using assms by (auto simp add: handle_endtag_def Let_def heading_tags_def)

lemma empty_heading_internal:
  "map content (blocks (get_blocknote_json str_nat
       (feed str_nat (scan_plain ''<h1></h1>'') (init_converter 0)))) = [[]]
   \<and> fst (html_to_blocknote plain_feed str_nat 0 ''<h1></h1>'') = []"
  by code_simp

lemma html_to_blocknote_nonempty:
  "\<forall>b\<in>set (fst (html_to_blocknote tk ids n html)). content b \<noteq> []"
  by (auto simp add: html_to_blocknote_def Let_def fallback_block_def split: feed_result.splits)

text \<open>
  C4. Every block returned by \<open>html_to_blocknote\<close> has a non-empty content sequence. A
  heading end tag appends the open heading block to the internal sequence whether or not
  it holds runs (for \<open><h1></h1>\<close> the internal sequence holds one block with no runs),
  and the final filter removes the blocks without runs.
\<close>

theorem output_blocks_nonempty:
  "(\<forall>b\<in>set (fst (html_to_blocknote tk ids n html)). content b \<noteq> [])
   \<and> (lower tag \<in> set heading_tags \<longrightarrow> current_block s = Some hb \<longrightarrow>
        blocks (handle_endtag ids tag s)
          = blocks s @ [hb\<lparr>content := current_content s @ pending_run s\<rparr>])
   \<and> map content (blocks (get_blocknote_json str_nat
         (feed str_nat (scan_plain ''<h1></h1>'') (init_converter 0)))) = [[]]
   \<and> fst (html_to_blocknote plain_feed str_nat 0 ''<h1></h1>'') = []"
  using html_to_blocknote_nonempty [of tk ids n html] handle_endtag_heading [of tag s hb ids]
        empty_heading_internal
  by blast

lemma heading_then_paragraph:
  "map block_type (fst (html_to_blocknote plain_feed str_nat 0 ''<h1></h1><p>x</p>''))
     = [''paragraph'']"
  by code_simp

lemma open_heading:
  "current_block (handle_starttag str_nat ''h1'' [] (init_converter 0))
     = Some ((create_block str_nat 0 ''heading'')
               \<lparr>props := (props (create_block str_nat 0 ''heading''))\<lparr>level := Some 1\<rparr>\<rparr>)"
  by code_simp

theorem output_blocks_nonempty_witness:
  "map block_type (fst (html_to_blocknote plain_feed str_nat 0 ''<h1></h1><p>x</p>''))
     = [''paragraph'']
   \<and> list_all (\<lambda>b. content b \<noteq> [])
        (fst (html_to_blocknote plain_feed str_nat 0 ''<h1></h1><p>x</p>''))
   \<and> map content (blocks (handle_endtag str_nat ''h1''
         (handle_starttag str_nat ''h1'' [] (init_converter 0)))) = [[]]"
proof -
  have h: "lower ''h1'' \<in> set heading_tags" by code_simp
  have e: "blocks (handle_starttag str_nat ''h1'' [] (init_converter 0)) = []
           \<and> current_content (handle_starttag str_nat ''h1'' [] (init_converter 0)) = []
           \<and> pending_run (handle_starttag str_nat ''h1'' [] (init_converter 0)) = []"
    by code_simp
  show ?thesis
    using output_blocks_nonempty [where tk = plain_feed and ids = str_nat and n = 0
            and html = "''<h1></h1><p>x</p>''" and tag = "''h1''"
            and s = "handle_starttag str_nat ''h1'' [] (init_converter 0)"
            and hb = "(create_block str_nat 0 ''heading'')
               \<lparr>props := (props (create_block str_nat 0 ''heading''))\<lparr>level := Some 1\<rparr>\<rparr>"]
          h open_heading heading_then_paragraph e
    by (simp add: create_block_def list_all_iff)
qed

section \<open>Malformed markup\<close>











section \<open>Links without a target\<close>

lemma lower_a: "lower ''a'' = ''a''" by code_simp

lemma no_href: "''href'' \<notin> fst ` set attrs \<Longrightarrow> map_of (rev attrs) ''href'' = None"
  by (simp add: map_of_eq_None_iff)

lemma blocknote_start_a:
  assumes "''href'' \<notin> fst ` set attrs"
  shows "handle_starttag ids ''a'' attrs s
           = (flush_text s)\<lparr>current_styles := (current_styles s)\<lparr>link := Some (Some [])\<rparr>\<rparr>"
  using no_href [OF assms]
  by (simp add: handle_starttag_def lower_a heading_tags_def Let_def)

lemma blocknote_link_run:
  assumes "''href'' \<notin> fst ` set attrs" and "d \<noteq> []"
  shows "current_content (handle_endtag ids ''a'' (handle_data d (handle_starttag ids ''a'' attrs s)))
           = current_content s @ pending_run s
               @ [\<lparr>node_type = ''text'', node_text = d,
                   styles = (current_styles s)\<lparr>link := Some (Some [])\<rparr>\<rparr>]"
  using assms
  by (simp add: blocknote_start_a handle_data_def handle_endtag_def lower_a heading_tags_def
        Let_def pending_run_def)

lemma md_start_a:
  assumes "''href'' \<notin> fst ` set attrs"
  shows "md_handle_starttag ''a'' attrs s
           = s\<lparr>result := result s @ [''[''],
               current_text := current_text s @ [(''link'', Some [])]\<rparr>"
  using no_href [OF assms]
  by (simp add: md_handle_starttag_def lower_a heading_tags_def Let_def emit_def)

lemma md_link_markup:
  assumes "''href'' \<notin> fst ` set attrs"
  shows "md_handle_endtag ''a'' (md_handle_data d (md_handle_starttag ''a'' attrs s))
           = s\<lparr>result := result s @ [''['', d, '']()'']\<rparr>"
  using assms
  by (simp add: md_start_a md_handle_data_def md_handle_endtag_def lower_a heading_tags_def
        Let_def emit_def format_href_def)

lemma link_examples:
  "map (\<lambda>r. (node_text r, link (styles r)))
      (concat (map content (fst (html_to_blocknote plain_feed str_nat 0 ''<a>x</a>''))))
     = [(''x'', Some (Some []))]
   \<and> html_to_markdown plain_feed ''<a>x</a>'' = ''[x]()''"
  by code_simp

text \<open>
  C10. For an \<open><a>\<close> start tag without an \<open>href\<close> attribute the link target defaults
  to the empty string in both targets: the structured target sets the link style to the
  empty string, so the enclosed text run carries it, and the Markdown emitter emits
  \<open>[\<close> on open and \<open>]()\<close> on close.
\<close>

theorem link_without_href:
  "(''href'' \<notin> fst ` set attrs \<longrightarrow>
      handle_starttag ids ''a'' attrs s
        = (flush_text s)\<lparr>current_styles := (current_styles s)\<lparr>link := Some (Some [])\<rparr>\<rparr>
      \<and> (d \<noteq> [] \<longrightarrow>
           current_content
               (handle_endtag ids ''a'' (handle_data d (handle_starttag ids ''a'' attrs s)))
             = current_content s @ pending_run s
                 @ [\<lparr>node_type = ''text'', node_text = d,
                     styles = (current_styles s)\<lparr>link := Some (Some [])\<rparr>\<rparr>])
      \<and> md_handle_starttag ''a'' attrs ms
          = ms\<lparr>result := result ms @ [''[''],
               current_text := current_text ms @ [(''link'', Some [])]\<rparr>
      \<and> md_handle_endtag ''a'' (md_handle_data d (md_handle_starttag ''a'' attrs ms))
          = ms\<lparr>result := result ms @ [''['', d, '']()'']\<rparr>)
   \<and> map (\<lambda>r. (node_text r, link (styles r)))
        (concat (map content (fst (html_to_blocknote plain_feed str_nat 0 ''<a>x</a>''))))
       = [(''x'', Some (Some []))]
   \<and> html_to_markdown plain_feed ''<a>x</a>'' = ''[x]()''"
  using blocknote_start_a [of attrs ids s] blocknote_link_run [of attrs d ids s]
        md_start_a [of attrs ms] md_link_markup [of attrs d ms] link_examples
  by blast

theorem link_without_href_witness:
  "map (\<lambda>r. (node_text r, link (styles r)))
     (current_content (handle_endtag str_nat ''a''
        (handle_data ''x'' (handle_starttag str_nat ''a'' [(''class'', Some ''c'')]
           (init_converter 0)))))
     = [(''x'', Some (Some []))]
   \<and> result (md_handle_endtag ''a''
        (md_handle_data ''x'' (md_handle_starttag ''a'' [(''class'', Some ''c'')] md_init)))
     = [''['', ''x'', '']()'']"
proof -
  have h: "''href'' \<notin> fst ` set [(''class'', Some ''c'')]" by simp
  have d: "''x'' \<noteq> []" by simp
  have "current_content (handle_endtag str_nat ''a''
          (handle_data ''x'' (handle_starttag str_nat ''a'' [(''class'', Some ''c'')]
             (init_converter 0))))
          = current_content (init_converter 0) @ pending_run (init_converter 0)
              @ [\<lparr>node_type = ''text'', node_text = ''x'',
                  styles = (current_styles (init_converter 0))\<lparr>link := Some (Some [])\<rparr>\<rparr>]
        \<and> md_handle_endtag ''a''
            (md_handle_data ''x'' (md_handle_starttag ''a'' [(''class'', Some ''c'')] md_init))
          = md_init\<lparr>result := result md_init @ [''['', ''x'', '']()'']\<rparr>"
    using link_without_href [where attrs = "[(''class'', Some ''c'')]" and d = "''x''"
            and ids = str_nat and s = "init_converter 0" and ms = md_init] h d
    by blast
  then show ?thesis
    by (simp add: init_converter_def md_init_def pending_run_def no_styles_def)
qed

section \<open>Properties of the tree converter\<close>

lemma surviving_docs_Nil [simp]: "surviving_docs docs td [] = []"
  by (simp add: surviving_docs_def List.map_filter_simps)

lemma surviving_docs_Cons:
  "surviving_docs docs td (i # rest) =
     (if survives docs td i then the (docs i) # surviving_docs docs td rest
      else surviving_docs docs td rest)"
  by (auto simp add: surviving_docs_def List.map_filter_simps survives_def split: option.splits)

lemma surviving_docs_empty_iff:
  "surviving_docs docs td doc_ids = [] \<longleftrightarrow> (\<forall>i\<in>set doc_ids. \<not> survives docs td i)"
  by (induction doc_ids) (auto simp add: surviving_docs_Cons)

lemma collect_folder_docs_fst:
  "fst (collect_folder_docs docs td doc_ids st) = surviving_docs docs td doc_ids"
proof (induction doc_ids arbitrary: st)
  case Nil
  show ?case by simp
next
  case (Cons i rest)
  show ?case
    by (auto simp add: surviving_docs_Cons survives_def Cons.IH split: option.splits prod.splits)
       (metis Cons.IH fst_conv)
qed

lemma folder_survives_docs:
  "folder_survives docs td tf fld \<longleftrightarrow>
     get_or (folder_id fld) [] \<notin> set tf \<and> status_ok (folder_status fld)
     \<and> surviving_docs docs td (documentIds fld) \<noteq> []"
  by (simp add: folder_survives_def surviving_docs_empty_iff)

lemma zip_folders_fst:
  "fst (zip_folders tk docs td tf fs st)
     = concat (map (folder_entries tk docs td) (filter (folder_survives docs td tf) fs))"
proof (induction fs arbitrary: st)
  case Nil
  show ?case by simp
next
  case (Cons fld rest)
  obtain ds st1 where c: "collect_folder_docs docs td (documentIds fld) st = (ds, st1)"
    by (cases "collect_folder_docs docs td (documentIds fld) st")
  have ds: "ds = surviving_docs docs td (documentIds fld)"
    using collect_folder_docs_fst [of docs td "documentIds fld" st] c by simp
  let ?st2 = "st1\<lparr>folders_processed := folders_processed st1 + 1,
                    documents_processed := documents_processed st1 + length ds\<rparr>"
  obtain others st3 where z: "zip_folders tk docs td tf rest ?st2 = (others, st3)"
    by (cases "zip_folders tk docs td tf rest ?st2")
  have o: "others = concat (map (folder_entries tk docs td)
                      (filter (folder_survives docs td tf) rest))"
    using Cons.IH [of ?st2] z by simp
  show ?case
  proof (cases "folder_survives docs td tf fld")
    case True
    have fe: "folder_entries tk docs td fld
                = (slugify_folder (get_or (folder_title fld) ''untitled'') @ ''/'', [])
                    # map (doc_entry tk (slugify_folder (get_or (folder_title fld) ''untitled'')))
                        ds"
      by (simp add: folder_entries_def ds Let_def)
    have t: "get_or (folder_id fld) [] \<notin> set tf" "status_ok (folder_status fld)" "ds \<noteq> []"
      using True ds by (simp_all add: folder_survives_docs)
    show ?thesis
      using True t c z o by (simp add: fe Let_def)
  next
    case False
    then have "get_or (folder_id fld) [] \<in> set tf \<or> \<not> status_ok (folder_status fld) \<or> ds = []"
      using ds by (auto simp add: folder_survives_docs)
    then show ?thesis
      using False c Cons.IH by (auto simp add: Let_def)
  qed
qed

lemma convert_document_fields:
  "out_title (fst (convert_document tk ids n doc ord)) = clean_title doc"
  "out_order (fst (convert_document tk ids n doc ord)) = ord"
  by (simp_all add: convert_document_def clean_title_def Let_def split: prod.splits)

lemma collect_documents_titles:
  "map out_title (fst (collect_documents tk ids docs td doc_ids n))
     = map clean_title (surviving_docs docs td doc_ids)"
proof (induction doc_ids arbitrary: n)
  case Nil
  show ?case by simp
next
  case (Cons i rest)
  show ?case
  proof (cases "survives docs td i")
    case True
    then obtain doc where d: "docs i = Some doc" "\<not> doc_is_empty doc" "status_ok (doc_status doc)"
      and nt: "i \<notin> set td"
      by (auto simp add: survives_def split: option.splits)
    obtain cd n1 where cv: "convert_document tk ids n doc 0 = (cd, n1)"
      by (cases "convert_document tk ids n doc 0")
    obtain others n2 where co: "collect_documents tk ids docs td rest n1 = (others, n2)"
      by (cases "collect_documents tk ids docs td rest n1")
    have t: "out_title cd = clean_title doc"
      using convert_document_fields(1) [of tk ids n doc 0] cv by simp
    have r: "map out_title others = map clean_title (surviving_docs docs td rest)"
      using Cons.IH [of n1] co by simp
    show ?thesis
      using True d nt cv co t r by (simp add: surviving_docs_Cons)
  next
    case False
    then show ?thesis
      using Cons.IH [of n]
      by (auto simp add: surviving_docs_Cons survives_def split: option.splits)
  qed
qed

lemma collect_documents_empty_iff:
  "fst (collect_documents tk ids docs td doc_ids n) = []
     \<longleftrightarrow> surviving_docs docs td doc_ids = []"
  using collect_documents_titles [of tk ids docs td doc_ids n]
  by (metis map_is_Nil_conv)

lemma collect_documents_length:
  "length (fst (collect_documents tk ids docs td doc_ids n))
     = length (surviving_docs docs td doc_ids)"
  using collect_documents_titles [of tk ids docs td doc_ids n]
  by (metis length_map)

lemma insort_key_map:
  assumes "\<And>x. f (g x) = h x"
  shows "map g (insort_key h x xs) = insort_key f (g x) (map g xs)"
  by (induction xs) (simp_all add: assms)

lemma sort_key_map:
  assumes "\<And>x. f (g x) = h x"
  shows "map g (sort_key h xs) = sort_key f (map g xs)"
  by (induction xs) (simp_all add: insort_key_map [where f = f and h = h, OF assms])

lemma assign_order_fields:
  "map out_title (assign_order ds) = map out_title ds"
  "map out_order (assign_order ds) = [0..<length ds]"
  "length (assign_order ds) = length ds"
proof -
  have e: "\<And>k. map (\<lambda>(idx, doc). out_title (doc\<lparr>out_order := idx\<rparr>)) (enumerate k ds)
             = map out_title ds"
    by (induction ds) simp_all
  show "map out_title (assign_order ds) = map out_title ds"
    using e [of 0] by (simp add: assign_order_def case_prod_unfold comp_def)
  have "map out_order (assign_order ds) = map fst (enumerate 0 ds)"
    by (simp add: assign_order_def case_prod_unfold comp_def)
  then show "map out_order (assign_order ds) = [0..<length ds]" by simp
  show "length (assign_order ds) = length ds" by (simp add: assign_order_def)
qed

lemma convert_folder_None:
  "fst (convert_folder tk ids n fld docs td ord) = None
     \<longleftrightarrow> surviving_docs docs td (documentIds fld) = []"
  using collect_documents_empty_iff [of tk ids docs td "documentIds fld" n]
  by (auto simp add: convert_folder_def Let_def split: prod.splits)

lemma convert_folder_Some:
  assumes "fst (convert_folder tk ids n fld docs td ord) = Some out"
  shows "fo_name out = slugify_folder_name (get_or (folder_title fld) ''untitled'')"
    and "fo_order out = ord"
    and "map out_title (fo_documents out)
           = sort_key natural_sort_key
               (map clean_title (surviving_docs docs td (documentIds fld)))"
    and "map out_order (fo_documents out) = [0..<length (fo_documents out)]"
    and "length (fo_documents out) = length (surviving_docs docs td (documentIds fld))"
proof -
  obtain ds n1 where c: "collect_documents tk ids docs td (documentIds fld) n = (ds, n1)"
    by (cases "collect_documents tk ids docs td (documentIds fld) n")
  have t: "map out_title ds = map clean_title (surviving_docs docs td (documentIds fld))"
    using collect_documents_titles [of tk ids docs td "documentIds fld" n] c by simp
  have o: "out = \<lparr>fo_name = slugify_folder_name (get_or (folder_title fld) ''untitled''),
                  fo_type = ''manuscript'', fo_description = None, fo_parent_id = None,
                  fo_label_color = None, fo_icon = None, fo_order = ord,
                  fo_is_default = False,
                  fo_documents = assign_order
                    (sort_key (\<lambda>d. natural_sort_key (out_title d)) ds)\<rparr>"
    using assms c by (simp add: convert_folder_def Let_def split: if_splits)
  show "fo_name out = slugify_folder_name (get_or (folder_title fld) ''untitled'')"
    by (simp add: o)
  show "fo_order out = ord" by (simp add: o)
  have "map out_title (sort_key (\<lambda>d. natural_sort_key (out_title d)) ds)
          = sort_key natural_sort_key (map out_title ds)"
    by (rule sort_key_map) simp
  then show "map out_title (fo_documents out)
           = sort_key natural_sort_key
               (map clean_title (surviving_docs docs td (documentIds fld)))"
    by (simp add: o assign_order_fields t)
  show "map out_order (fo_documents out) = [0..<length (fo_documents out)]"
    by (simp add: o assign_order_fields)
  show "length (fo_documents out) = length (surviving_docs docs td (documentIds fld))"
    using t by (simp add: o assign_order_fields) (metis length_map)
qed

lemma collect_documents_dead:
  "surviving_docs docs td doc_ids = [] \<Longrightarrow>
   collect_documents tk ids docs td doc_ids n = ([], n)"
proof (induction doc_ids arbitrary: n)
  case Nil
  show ?case by simp
next
  case (Cons i rest)
  then have "\<not> survives docs td i" and "surviving_docs docs td rest = []"
    by (auto simp add: surviving_docs_Cons split: if_splits)
  then show ?case
    using Cons.IH [of n] by (auto simp add: survives_def split: option.splits)
qed

lemma collect_documents_filter:
  "collect_documents tk ids docs td (filter (survives docs td) doc_ids) n
     = collect_documents tk ids docs td doc_ids n"
proof (induction doc_ids arbitrary: n)
  case Nil
  show ?case by simp
next
  case (Cons i rest)
  show ?case
  proof (cases "survives docs td i")
    case True
    then obtain doc where d: "docs i = Some doc" "\<not> doc_is_empty doc" "status_ok (doc_status doc)"
      and nt: "i \<notin> set td"
      by (auto simp add: survives_def split: option.splits)
    show ?thesis
      using True d nt Cons.IH by (simp split: prod.splits)
  next
    case False
    then show ?thesis
      using Cons.IH [of n] by (auto simp add: survives_def split: option.splits)
  qed
qed

lemma convert_folder_dead:
  "surviving_docs docs td (documentIds fld) = [] \<Longrightarrow>
   convert_folder tk ids n fld docs td ord = (None, n)"
  by (simp add: convert_folder_def collect_documents_dead)

lemma convert_folder_filter:
  "convert_folder tk ids n (fld\<lparr>documentIds := filter (survives docs td) (documentIds fld)\<rparr>)
      docs td ord
     = convert_folder tk ids n fld docs td ord"
  by (simp add: convert_folder_def collect_documents_filter split: prod.splits)

lemma convert_folders_prune:
  "convert_folders tk ids docs td tf
      (map (\<lambda>fld. fld\<lparr>documentIds := filter (survives docs td) (documentIds fld)\<rparr>)
         (filter (folder_survives docs td tf) fs)) ord n
     = convert_folders tk ids docs td tf fs ord n"
proof (induction fs arbitrary: ord n)
  case Nil
  show ?case by simp
next
  case (Cons fld rest)
  show ?case
  proof (cases "folder_survives docs td tf fld")
    case True
    then have t: "get_or (folder_id fld) [] \<notin> set tf" "status_ok (folder_status fld)"
      by (simp_all add: folder_survives_def)
    show ?thesis
      using True t Cons.IH
      by (simp add: convert_folder_filter split: prod.splits option.splits)
  next
    case False
    then have "get_or (folder_id fld) [] \<in> set tf \<or> \<not> status_ok (folder_status fld)
               \<or> surviving_docs docs td (documentIds fld) = []"
      by (auto simp add: folder_survives_docs)
    then show ?thesis
      using False Cons.IH by (auto simp add: convert_folder_dead)
  qed
qed

lemma sort_key_prune:
  "sort_key sort_of (map (\<lambda>fld. fld\<lparr>documentIds := g fld\<rparr>) (filter P fs))
     = map (\<lambda>fld. fld\<lparr>documentIds := g fld\<rparr>) (filter P (sort_key sort_of fs))"
proof -
  have "map (\<lambda>fld. fld\<lparr>documentIds := g fld\<rparr>) (sort_key sort_of (filter P fs))
          = sort_key sort_of (map (\<lambda>fld. fld\<lparr>documentIds := g fld\<rparr>) (filter P fs))"
    by (rule sort_key_map) (simp add: sort_of_def)
  then show ?thesis by (simp add: filter_sort)
qed

lemma schema2_prune:
  "convert_schema1_to_schema2 tk ids n (prune data) = convert_schema1_to_schema2 tk ids n data"
proof -
  have f: "sort_key sort_of (folders (prune data))
             = map (\<lambda>fld. fld\<lparr>documentIds :=
                      filter (survives (documentsById data) (trash_documentIds data))
                        (documentIds fld)\<rparr>)
                 (filter (folder_survives (documentsById data) (trash_documentIds data)
                            (trash_folderIds data))
                    (sort_key sort_of (folders data)))"
  proof -
    have "folders (prune data)
            = map (\<lambda>fld. fld\<lparr>documentIds :=
                      filter (survives (documentsById data) (trash_documentIds data))
                        (documentIds fld)\<rparr>)
                 (filter (folder_survives (documentsById data) (trash_documentIds data)
                            (trash_folderIds data))
                    (folders data))"
      by (simp add: prune_def)
    then show ?thesis by (simp only: sort_key_prune)
  qed
  have o: "documentsById (prune data) = documentsById data"
          "trash_documentIds (prune data) = trash_documentIds data"
          "trash_folderIds (prune data) = trash_folderIds data"
          "project_title (prune data) = project_title data"
    by (simp_all add: prune_def)
  show ?thesis
    by (simp only: convert_schema1_to_schema2_def f o Let_def convert_folders_prune)
qed

lemma convert_folders_summary:
  "map folder_summary (fst (convert_folders tk ids docs td tf fs ord n))
     = map (expected_folder docs td) (filter (folder_survives docs td tf) fs)"
proof (induction fs arbitrary: ord n)
  case Nil
  show ?case by simp
next
  case (Cons fld rest)
  show ?case
  proof (cases "folder_survives docs td tf fld")
    case True
    then have t: "get_or (folder_id fld) [] \<notin> set tf" "status_ok (folder_status fld)"
      and sv: "surviving_docs docs td (documentIds fld) \<noteq> []"
      by (simp_all add: folder_survives_docs)
    obtain r n1 where c: "convert_folder tk ids n fld docs td ord = (r, n1)"
      by (cases "convert_folder tk ids n fld docs td ord")
    then obtain out where r: "r = Some out"
      using convert_folder_None [of tk ids n fld docs td ord] sv by (cases r) auto
    have s: "folder_summary out = expected_folder docs td fld"
      using convert_folder_Some(1,3) [of tk ids n fld docs td ord out] c r
      by (simp add: folder_summary_def expected_folder_def)
    obtain others n2 where
      o: "convert_folders tk ids docs td tf rest (ord + 1) n1 = (others, n2)"
      by (cases "convert_folders tk ids docs td tf rest (ord + 1) n1")
    have "map folder_summary others
            = map (expected_folder docs td) (filter (folder_survives docs td tf) rest)"
      using Cons.IH [of "ord + 1" n1] o by simp
    then show ?thesis
      using True t c r s o by simp
  next
    case False
    then have "get_or (folder_id fld) [] \<in> set tf \<or> \<not> status_ok (folder_status fld)
               \<or> surviving_docs docs td (documentIds fld) = []"
      by (auto simp add: folder_survives_docs)
    then show ?thesis
      using False Cons.IH by (auto simp add: convert_folder_dead)
  qed
qed


lemma schema2_unfold:
  assumes "convert_folders tk ids (documentsById data) (trash_documentIds data)
              (trash_folderIds data) (sort_key sort_of (folders data)) 0 n = (cfs, n')"
  shows "s2_folders (fst (convert_schema1_to_schema2 tk ids n data)) = cfs"
    and "number_of_chapters (fst (convert_schema1_to_schema2 tk ids n data))
           = (if sum_list (map (\<lambda>f. length (fo_documents f)) cfs) > 0
              then Some (sum_list (map (\<lambda>f. length (fo_documents f)) cfs)) else None)"
  unfolding convert_schema1_to_schema2_def Let_def assms by simp_all

lemma schema2_folders:
  "s2_folders (fst (convert_schema1_to_schema2 tk ids n data))
     = fst (convert_folders tk ids (documentsById data) (trash_documentIds data)
              (trash_folderIds data) (sort_key sort_of (folders data)) 0 n)"
proof -
  obtain cfs n' where c: "convert_folders tk ids (documentsById data) (trash_documentIds data)
              (trash_folderIds data) (sort_key sort_of (folders data)) 0 n = (cfs, n')"
    by (cases "convert_folders tk ids (documentsById data) (trash_documentIds data)
              (trash_folderIds data) (sort_key sort_of (folders data)) 0 n")
  show ?thesis using schema2_unfold(1) [OF c] c by simp
qed








lemma survives_trashed: "i \<in> set td \<Longrightarrow> \<not> survives docs td i"
  by (simp add: survives_def)

lemma schema2_summary:
  "map folder_summary (s2_folders (fst (convert_schema1_to_schema2 tk ids n data)))
     = map (expected_folder (documentsById data) (trash_documentIds data))
         (filter (folder_survives (documentsById data) (trash_documentIds data)
                    (trash_folderIds data))
            (sort_key sort_of (folders data)))"
  by (simp only: schema2_folders convert_folders_summary)

lemma zip_entries:
  "fst (convert_schema1_to_zip tk data)
     = concat (map (folder_entries tk (documentsById data) (trash_documentIds data))
         (filter (folder_survives (documentsById data) (trash_documentIds data)
                    (trash_folderIds data))
            (sort_key sort_of (folders data))))"
  by (simp only: convert_schema1_to_zip_def zip_folders_fst)

text \<open>
  C5. An entity whose id is in its trash set is excluded from both outputs whatever its
  status, and a folder none of whose references survives yields no output folder and no
  archive entry: removing all of them from the tree leaves the structured output
  unchanged; the output folders are, in order, those of the surviving folders with the
  titles of their surviving documents; and the archive holds exactly the directory and
  file entries of the surviving folders and their surviving documents.
\<close>

theorem trashed_entities_excluded:
  "convert_schema1_to_schema2 tk ids n (prune data) = convert_schema1_to_schema2 tk ids n data
   \<and> map folder_summary (s2_folders (fst (convert_schema1_to_schema2 tk ids n data)))
       = map (expected_folder (documentsById data) (trash_documentIds data))
           (filter (folder_survives (documentsById data) (trash_documentIds data)
                      (trash_folderIds data))
              (sort_key sort_of (folders data)))
   \<and> fst (convert_schema1_to_zip tk data)
       = concat (map (folder_entries tk (documentsById data) (trash_documentIds data))
           (filter (folder_survives (documentsById data) (trash_documentIds data)
                      (trash_folderIds data))
              (sort_key sort_of (folders data))))
   \<and> (i \<in> set td \<longrightarrow> \<not> survives docs td i)
   \<and> (get_or (folder_id fld) [] \<in> set tf \<longrightarrow> \<not> folder_survives docs td tf fld)
   \<and> ((\<forall>i\<in>set (documentIds fld). \<not> survives docs td i)
        \<longrightarrow> \<not> folder_survives docs td tf fld)"
  using schema2_prune [of tk ids n data] schema2_summary [of tk ids n data]
        zip_entries [of tk data] survives_trashed [of i td docs]
  by (simp add: folder_survives_def)

lemma example_tree_survivors:
  "map (expected_folder (documentsById example_tree) (trash_documentIds example_tree))
         (filter (folder_survives (documentsById example_tree) (trash_documentIds example_tree)
            (trash_folderIds example_tree)) (sort_key sort_of (folders example_tree)))
    = [(''part-one'', [''Chapter 1'', ''Chapter 2'', ''Chapter 10''])]
   \<and> concat (map (folder_entries plain_feed (documentsById example_tree)
                     (trash_documentIds example_tree))
       (filter (folder_survives (documentsById example_tree) (trash_documentIds example_tree)
            (trash_folderIds example_tree)) (sort_key sort_of (folders example_tree))))
      = [(''part-one/'', []), (''part-one/Chapter_10.md'', ''ten''),
         (''part-one/Chapter_2.md'', ''# two''), (''part-one/Chapter_1.md'', ''one'')]"
  by code_simp

lemma example_tree_trash:
  "''d4'' \<in> set (trash_documentIds example_tree)
   \<and> get_or (folder_id trashed_folder) [] \<in> set (trash_folderIds example_tree)
   \<and> folder_status trashed_folder = Some ''active''
   \<and> (\<forall>i\<in>set (documentIds emptied_folder).
         \<not> survives (documentsById example_tree) (trash_documentIds example_tree) i)"
  by code_simp

theorem trashed_entities_excluded_witness:
  "map folder_summary
      (s2_folders (fst (convert_schema1_to_schema2 plain_feed str_nat 0 example_tree)))
     = [(''part-one'', [''Chapter 1'', ''Chapter 2'', ''Chapter 10''])]
   \<and> fst (convert_schema1_to_zip plain_feed example_tree)
       = [(''part-one/'', []), (''part-one/Chapter_10.md'', ''ten''),
          (''part-one/Chapter_2.md'', ''# two''), (''part-one/Chapter_1.md'', ''one'')]
   \<and> \<not> survives (documentsById example_tree) (trash_documentIds example_tree) ''d4''
   \<and> \<not> folder_survives (documentsById example_tree) (trash_documentIds example_tree)
         (trash_folderIds example_tree) trashed_folder
   \<and> \<not> folder_survives (documentsById example_tree) (trash_documentIds example_tree)
         (trash_folderIds example_tree) emptied_folder"
  using trashed_entities_excluded [where tk = plain_feed and ids = str_nat and n = 0
          and data = example_tree and i = "''d4''"
          and td = "trash_documentIds example_tree" and docs = "documentsById example_tree"
          and tf = "trash_folderIds example_tree" and fld = trashed_folder]
        trashed_entities_excluded [where tk = plain_feed and ids = str_nat and n = 0
          and data = example_tree and i = "''d4''"
          and td = "trash_documentIds example_tree" and docs = "documentsById example_tree"
          and tf = "trash_folderIds example_tree" and fld = emptied_folder]
        example_tree_survivors example_tree_trash
  by simp











section \<open>Determinism up to block identifiers\<close>

lemma shape_flush_text: "same_shape s s' \<Longrightarrow> same_shape (flush_text s) (flush_text s')"
  by (simp add: same_shape_def pending_run_def)

lemma erase_create_block:
  "erase_block ((create_block ids n ty)\<lparr>content := c\<rparr>)
     = erase_block ((create_block ids' n' ty)\<lparr>content := c\<rparr>)"
  "erase_block ((create_block ids n ty)\<lparr>props := p\<rparr>)
     = erase_block ((create_block ids' n' ty)\<lparr>props := p\<rparr>)"
  by (simp_all add: erase_block_def create_block_def)

lemma shape_flush_block:
  assumes "same_shape s s'"
  shows "same_shape (flush_block ids s) (flush_block ids' s')"
proof -
  have t: "same_shape (flush_text s) (flush_text s')" using assms by (rule shape_flush_text)
  have c: "current_content (flush_text s) = current_content (flush_text s')"
    using t by (simp add: same_shape_def)
  have e: "erase_block ((create_block ids (next_id s) ''paragraph'')
                          \<lparr>content := current_content (flush_text s)\<rparr>)
           = erase_block ((create_block ids' (next_id s') ''paragraph'')
                          \<lparr>content := current_content (flush_text s')\<rparr>)"
    unfolding c by (rule erase_create_block(1))
  show ?thesis
    using t e c by (auto simp add: flush_block_def Let_def same_shape_def)
qed

lemma shape_fields:
  assumes "same_shape s s'"
  shows "current_styles s = current_styles s'"
    and "current_content s = current_content s'"
    and "pending_text s = pending_text s'"
    and "map erase_block (blocks s) = map erase_block (blocks s')"
    and "map_option erase_block (current_block s) = map_option erase_block (current_block s')"
  using assms by (simp_all add: same_shape_def)

lemma shape_set_styles:
  "same_shape s s' \<Longrightarrow> same_shape (s\<lparr>current_styles := st\<rparr>) (s'\<lparr>current_styles := st\<rparr>)"
  by (simp add: same_shape_def)

lemma shape_handle_starttag:
  assumes "same_shape s s'"
  shows "same_shape (handle_starttag ids tag attrs s) (handle_starttag ids' tag attrs s')"
proof -
  have t: "same_shape (flush_text s) (flush_text s')" using assms by (rule shape_flush_text)
  have b: "same_shape (flush_block ids s) (flush_block ids' s')"
    using assms by (rule shape_flush_block)
  have st: "current_styles s = current_styles s'" using assms by (rule shape_fields(1))
  have h: "same_shape
       ((flush_block ids s)\<lparr>current_block :=
            Some ((create_block ids (next_id (flush_block ids s)) ''heading'')
                    \<lparr>props := p\<rparr>),
          next_id := k\<rparr>)
       ((flush_block ids' s')\<lparr>current_block :=
            Some ((create_block ids' (next_id (flush_block ids' s')) ''heading'')
                    \<lparr>props := p\<rparr>),
          next_id := k'\<rparr>)" for p k k'
    using b erase_create_block(2) [where ids = ids and ids' = ids' and ty = "''heading''"
              and p = p and n = "next_id (flush_block ids s)"
              and n' = "next_id (flush_block ids' s')"]
    by (simp add: same_shape_def)
  have pr: "props (create_block ids n1 ty) = props (create_block ids' n2 ty)" for n1 n2 ty
    by (simp add: create_block_def)
  show ?thesis
    unfolding handle_starttag_def Let_def
    using assms t b st h pr [of "next_id (flush_block ids s)" "''heading''"
                          "next_id (flush_block ids' s')"]
    by (simp add: shape_set_styles)
qed

lemma erase_content:
  "erase_block (b\<lparr>content := c\<rparr>) = (erase_block b)\<lparr>content := c\<rparr>"
  by (simp add: erase_block_def)

lemma shape_handle_endtag:
  assumes "same_shape s s'"
  shows "same_shape (handle_endtag ids tag s) (handle_endtag ids' tag s')"
proof -
  have t: "same_shape (flush_text s) (flush_text s')" using assms by (rule shape_flush_text)
  have b: "same_shape (flush_block ids s) (flush_block ids' s')"
    using assms by (rule shape_flush_block)
  have st: "current_styles s = current_styles s'" using assms by (rule shape_fields(1))
  have cb: "map_option erase_block (current_block s) = map_option erase_block (current_block s')"
    using assms by (rule shape_fields(5))
  have hd: "same_shape
       (case current_block (flush_text s) of
          Some hb \<Rightarrow> (flush_text s)\<lparr>blocks := blocks (flush_text s)
                          @ [hb\<lparr>content := current_content (flush_text s)\<rparr>],
                        current_block := None, current_content := []\<rparr>
        | None \<Rightarrow> flush_text s)
       (case current_block (flush_text s') of
          Some hb \<Rightarrow> (flush_text s')\<lparr>blocks := blocks (flush_text s')
                          @ [hb\<lparr>content := current_content (flush_text s')\<rparr>],
                        current_block := None, current_content := []\<rparr>
        | None \<Rightarrow> flush_text s')"
    using t cb
    by (cases "current_block s"; cases "current_block s'")
       (auto simp add: same_shape_def erase_content)
  show ?thesis
    unfolding handle_endtag_def Let_def
    using assms t b st hd by (simp add: shape_set_styles)
qed

lemma shape_handle_data:
  "same_shape s s' \<Longrightarrow> same_shape (handle_data d s) (handle_data d s')"
  by (simp add: handle_data_def same_shape_def)

lemma shape_handle:
  "same_shape s s' \<Longrightarrow> same_shape (handle ids s e) (handle ids' s' e)"
  by (cases e) (simp_all add: shape_handle_starttag shape_handle_endtag shape_handle_data)

lemma shape_feed:
  "same_shape s s' \<Longrightarrow> same_shape (feed ids evs s) (feed ids' evs s')"
proof (induction evs arbitrary: s s')
  case Nil
  then show ?case by (simp add: feed_def)
next
  case (Cons e evs)
  have "same_shape (handle ids s e) (handle ids' s' e)"
    using Cons.prems by (rule shape_handle)
  then have "same_shape (feed ids evs (handle ids s e)) (feed ids' evs (handle ids' s' e))"
    by (rule Cons.IH)
  then show ?case by (simp add: feed_def)
qed

lemma shape_init: "same_shape (init_converter n) (init_converter n')"
  by (simp add: same_shape_def init_converter_def)

lemma erase_filter:
  "map erase_block (filter (\<lambda>b. content b \<noteq> []) bs)
     = filter (\<lambda>b. content b \<noteq> []) (map erase_block bs)"
  by (induction bs) (simp_all add: erase_block_def)

lemma html_to_blocknote_shape:
  "map erase_block (fst (html_to_blocknote tk ids n html))
     = map erase_block (fst (html_to_blocknote tk ids' n' html))"
proof (cases "html = []")
  case True
  then show ?thesis by (simp add: html_to_blocknote_def)
next
  case False
  show ?thesis
  proof (cases "tk html")
    case (Completed evs)
    have "same_shape (get_blocknote_json ids (feed ids evs (init_converter n)))
                     (get_blocknote_json ids' (feed ids' evs (init_converter n')))"
      unfolding get_blocknote_json_def
      by (intro shape_flush_block shape_feed shape_init)
    then have "map erase_block (blocks (get_blocknote_json ids (feed ids evs (init_converter n))))
             = map erase_block (blocks (get_blocknote_json ids' (feed ids' evs (init_converter n'))))"
      by (rule shape_fields(4))
    then show ?thesis
      using False Completed by (simp add: html_to_blocknote_def Let_def erase_filter)
  next
    case (Faulted evs)
    then show ?thesis
      using False
      by (simp add: html_to_blocknote_def Let_def fallback_block_def erase_block_def)
  qed
qed

lemma count_words_erase: "count_words (map erase_block bs) = count_words bs"
  by (simp add: count_words_def erase_block_def comp_def)

lemma convert_document_shape:
  "erase_document (fst (convert_document tk ids n doc ord))
     = erase_document (fst (convert_document tk ids' n' doc ord))"
proof -
  obtain bs m where a: "html_to_blocknote tk ids n (get_or (doc_content doc) []) = (bs, m)"
    by (cases "html_to_blocknote tk ids n (get_or (doc_content doc) [])")
  obtain bs' m' where b: "html_to_blocknote tk ids' n' (get_or (doc_content doc) []) = (bs', m')"
    by (cases "html_to_blocknote tk ids' n' (get_or (doc_content doc) [])")
  have e: "map erase_block bs = map erase_block bs'"
    using html_to_blocknote_shape [of tk ids n "get_or (doc_content doc) []" ids' n'] a b
    by simp
  have w: "count_words bs = count_words bs'"
    using e count_words_erase [of bs] count_words_erase [of bs'] by simp
  show ?thesis
    using e w by (simp add: convert_document_def a b Let_def erase_document_def)
qed

lemma collect_documents_shape:
  "map erase_document (fst (collect_documents tk ids docs td doc_ids n))
     = map erase_document (fst (collect_documents tk ids' docs td doc_ids n'))"
proof (induction doc_ids arbitrary: n n')
  case Nil
  show ?case by simp
next
  case (Cons i rest)
  show ?case
  proof (cases "i \<notin> set td \<and> (\<exists>doc. docs i = Some doc \<and> \<not> doc_is_empty doc
                                   \<and> status_ok (doc_status doc))")
    case True
    then obtain doc where d: "i \<notin> set td" "docs i = Some doc" "\<not> doc_is_empty doc"
        "status_ok (doc_status doc)" by blast
    obtain cd n1 where c: "convert_document tk ids n doc 0 = (cd, n1)"
      by (cases "convert_document tk ids n doc 0")
    obtain cd' n1' where c': "convert_document tk ids' n' doc 0 = (cd', n1')"
      by (cases "convert_document tk ids' n' doc 0")
    obtain os n2 where r: "collect_documents tk ids docs td rest n1 = (os, n2)"
      by (cases "collect_documents tk ids docs td rest n1")
    obtain os' n2' where r': "collect_documents tk ids' docs td rest n1' = (os', n2')"
      by (cases "collect_documents tk ids' docs td rest n1'")
    have h: "erase_document cd = erase_document cd'"
      using convert_document_shape [of tk ids n doc 0 ids' n'] c c' by simp
    have t: "map erase_document os = map erase_document os'"
      using Cons.IH [of n1 n1'] r r' by simp
    show ?thesis using d c c' r r' h t by simp
  next
    case False
    then show ?thesis
      using Cons.IH [of n n'] by (auto split: option.splits)
  qed
qed

lemma erase_title [simp]: "out_title (erase_document d) = out_title d"
  by (simp add: erase_document_def)

lemma erase_assign_order:
  "map erase_document (assign_order ds) = assign_order (map erase_document ds)"
proof -
  have "map erase_document (map (\<lambda>(idx, doc). doc\<lparr>out_order := idx\<rparr>) (enumerate k ds))
          = map (\<lambda>(idx, doc). doc\<lparr>out_order := idx\<rparr>) (enumerate k (map erase_document ds))"
    for k
    by (induction ds arbitrary: k) (simp_all add: erase_document_def)
  then show ?thesis by (simp add: assign_order_def)
qed

lemma erase_sorted_documents:
  "map erase_document (assign_order (sort_key (\<lambda>d. natural_sort_key (out_title d)) ds))
     = assign_order (sort_key (\<lambda>d. natural_sort_key (out_title d)) (map erase_document ds))"
proof -
  have "map erase_document (sort_key (\<lambda>d. natural_sort_key (out_title d)) ds)
          = sort_key (\<lambda>d. natural_sort_key (out_title d)) (map erase_document ds)"
    by (rule sort_key_map) simp
  then show ?thesis by (simp add: erase_assign_order)
qed

lemma convert_folder_shape:
  "map_option erase_folder (fst (convert_folder tk ids n fld docs td ord))
     = map_option erase_folder (fst (convert_folder tk ids' n' fld docs td ord))"
proof -
  obtain ds m where a: "collect_documents tk ids docs td (documentIds fld) n = (ds, m)"
    by (cases "collect_documents tk ids docs td (documentIds fld) n")
  obtain ds' m' where b: "collect_documents tk ids' docs td (documentIds fld) n' = (ds', m')"
    by (cases "collect_documents tk ids' docs td (documentIds fld) n'")
  have e: "map erase_document ds = map erase_document ds'"
    using collect_documents_shape [of tk ids docs td "documentIds fld" n ids' n'] a b by simp
  then have z: "ds = [] \<longleftrightarrow> ds' = []" by (metis map_is_Nil_conv)
  show ?thesis
    using e z
    by (simp add: convert_folder_def a b Let_def erase_folder_def erase_sorted_documents)
qed

lemma convert_folders_shape:
  "map erase_folder (fst (convert_folders tk ids docs td tf fs ord n))
     = map erase_folder (fst (convert_folders tk ids' docs td tf fs ord n'))"
proof (induction fs arbitrary: ord n n')
  case Nil
  show ?case by simp
next
  case (Cons fld rest)
  obtain r m where a: "convert_folder tk ids n fld docs td ord = (r, m)"
    by (cases "convert_folder tk ids n fld docs td ord")
  obtain r' m' where b: "convert_folder tk ids' n' fld docs td ord = (r', m')"
    by (cases "convert_folder tk ids' n' fld docs td ord")
  have e: "map_option erase_folder r = map_option erase_folder r'"
    using convert_folder_shape [of tk ids n fld docs td ord ids' n'] a b by simp
  show ?case
  proof (cases r)
    case None
    then have "r' = None" using e by simp
    then show ?thesis
      using None a b Cons.IH [of ord n n'] Cons.IH [of ord m m'] by simp
  next
    case (Some cf)
    then obtain cf' where s': "r' = Some cf'" and ee: "erase_folder cf = erase_folder cf'"
      using e by (cases r') auto
    obtain os k where c: "convert_folders tk ids docs td tf rest (ord + 1) m = (os, k)"
      by (cases "convert_folders tk ids docs td tf rest (ord + 1) m")
    obtain os' k' where c': "convert_folders tk ids' docs td tf rest (ord + 1) m' = (os', k')"
      by (cases "convert_folders tk ids' docs td tf rest (ord + 1) m'")
    have t: "map erase_folder os = map erase_folder os'"
      using Cons.IH [of "ord + 1" m m'] c c' by simp
    show ?thesis
      using Some s' ee a b c c' t Cons.IH [of ord n n'] by simp
  qed
qed

lemma schema2_shape:
  "erase_project (fst (convert_schema1_to_schema2 tk ids n data))
     = erase_project (fst (convert_schema1_to_schema2 tk ids' n' data))"
proof -
  let ?run = "\<lambda>i k. convert_folders tk i (documentsById data) (trash_documentIds data)
              (trash_folderIds data) (sort_key sort_of (folders data)) 0 k"
  obtain cfs m where a: "?run ids n = (cfs, m)" by (cases "?run ids n")
  obtain cfs' m' where b: "?run ids' n' = (cfs', m')" by (cases "?run ids' n'")
  have e: "map erase_folder cfs = map erase_folder cfs'"
    using convert_folders_shape [of tk ids "documentsById data" "trash_documentIds data"
            "trash_folderIds data" "sort_key sort_of (folders data)" 0 n ids' n'] a b
    by simp
  have "map (\<lambda>f. length (fo_documents f)) (map erase_folder cfs)
          = map (\<lambda>f. length (fo_documents f)) (map erase_folder cfs')"
    by (simp only: e)
  then have l: "map (\<lambda>f. length (fo_documents f)) cfs = map (\<lambda>f. length (fo_documents f)) cfs'"
    by (simp add: erase_folder_def comp_def)
  have sm: "sum_list (map (\<lambda>f. length (fo_documents f)) cfs)
              = sum_list (map (\<lambda>f. length (fo_documents f)) cfs')"
    by (simp only: l)
  show ?thesis
    unfolding convert_schema1_to_schema2_def Let_def a b prod.case fst_conv sm
    by (simp add: erase_project_def e)
qed

text \<open>
  C9. The structured conversion is deterministic up to the block identifiers: for one
  input, two runs that draw different identifiers (any two supplies, started anywhere)
  return block lists, and whole output trees, that are equal once the identifiers are
  blanked. The Markdown conversion and the archive draw no identifier at all: they are
  functions of the tokenizer and the input only.
\<close>

theorem deterministic_modulo_ids:
  "map erase_block (fst (html_to_blocknote tk ids n html))
     = map erase_block (fst (html_to_blocknote tk ids' n' html))
   \<and> erase_project (fst (convert_schema1_to_schema2 tk ids n data))
       = erase_project (fst (convert_schema1_to_schema2 tk ids' n' data))"
  using html_to_blocknote_shape [of tk ids n html ids' n']
        schema2_shape [of tk ids n data ids' n']
  by simp

lemma example_tree_ids_differ:
  "fst (convert_schema1_to_schema2 plain_feed str_nat 0 example_tree)
     \<noteq> fst (convert_schema1_to_schema2 plain_feed (\<lambda>k. ''id'') 5 example_tree)"
  by code_simp

theorem deterministic_modulo_ids_witness:
  "erase_project (fst (convert_schema1_to_schema2 plain_feed str_nat 0 example_tree))
     = erase_project (fst (convert_schema1_to_schema2 plain_feed (\<lambda>k. ''id'') 5 example_tree))
   \<and> fst (convert_schema1_to_schema2 plain_feed str_nat 0 example_tree)
       \<noteq> fst (convert_schema1_to_schema2 plain_feed (\<lambda>k. ''id'') 5 example_tree)"
  using deterministic_modulo_ids [where tk = plain_feed and ids = str_nat and n = 0
          and ids' = "\<lambda>k. ''id''" and n' = 5 and data = example_tree and html = "[]"]
        example_tree_ids_differ
  by simp

end
